theory Spec2Isabelle
  imports Complex_Main "HOL-Library.Word"
begin

section \<open>populate\_map.py: tile-grid codec\<close>

text \<open>
  A Python \<open>bytes\<close> object is a list of 8-bit words; indexing it yields an integer in
  \<open>0..255\<close> (\<open>unat\<close>). The grid \<open>tiles\<close> is a list of rows of tile codes.
  \<open>width\<close> and \<open>depth\<close> are Python integers read from the document, hence \<open>int\<close>;
  the cursors \<open>x\<close>, \<open>z\<close> and \<open>i\<close> start at 0 and only grow, hence \<open>nat\<close>.
\<close>

type_synonym byte = "8 word"

type_synonym grid = "nat list list"

datatype error = DecodeError | TypeError | FileNotFoundError

text \<open>\<open>tiles = [[0] * depth for _ in range(width)]\<close>: a negative bound gives an
  empty range and an empty list, which is what \<open>nat\<close> of a negative integer gives.\<close>

definition blank_tiles :: "int \<Rightarrow> int \<Rightarrow> grid" where
  "blank_tiles width depth = replicate (nat width) (replicate (nat depth) 0)"

text \<open>One pass of the body of \<open>for _ in range(count)\<close> (lines 51-56).\<close>

fun put_tile :: "int \<Rightarrow> int \<Rightarrow> nat \<Rightarrow> grid \<times> nat \<times> nat \<Rightarrow> grid \<times> nat \<times> nat" where
  "put_tile width depth v (tiles, x, z) =
     (if int x < width \<and> int z < depth then
        (let tiles' = tiles[x := (tiles ! x)[z := v]];
             z' = z + 1
         in if int z' \<ge> depth then (tiles', x + 1, 0) else (tiles', x, z'))
      else (tiles, x, z))"

text \<open>The loop \<open>for _ in range(count)\<close>.\<close>

primrec write_run :: "int \<Rightarrow> int \<Rightarrow> nat \<Rightarrow> nat \<Rightarrow> grid \<times> nat \<times> nat \<Rightarrow> grid \<times> nat \<times> nat" where
  "write_run width depth v 0 s = s"
| "write_run width depth v (Suc n) s = write_run width depth v n (put_tile width depth v s)"

text \<open>Lines 41-48: read the value byte at \<open>i\<close>, then the optional sentinel and count.
  The result is \<open>(value, count, i)\<close> with the advanced index.\<close>

definition read_run :: "byte list \<Rightarrow> nat \<Rightarrow> nat \<times> nat \<times> nat" where
  "read_run decompressed i =
     (let v = unat (decompressed ! i);
          i1 = i + 1
      in if i1 < length decompressed \<and> decompressed ! i1 = 0xFF then
           (let i2 = i1 + 1
            in if i2 < length decompressed
               then (v, unat (decompressed ! i2), i2 + 1)
               else (v, 1, i2))
         else (v, 1, i1))"

text \<open>The loop \<open>while i < len(decompressed) and x < width\<close>.\<close>

function rle_loop :: "byte list \<Rightarrow> int \<Rightarrow> int \<Rightarrow> nat \<Rightarrow> grid \<times> nat \<times> nat \<Rightarrow> grid \<times> nat \<times> nat" where
  "rle_loop decompressed width depth i (tiles, x, z) =
     (if i < length decompressed \<and> int x < width then
        (case read_run decompressed i of
           (v, count, i') \<Rightarrow>
             rle_loop decompressed width depth i' (write_run width depth v count (tiles, x, z)))
      else (tiles, x, z))"
  by pat_completeness auto
termination
  by (relation "measure (\<lambda>(bs, w, d, i, s). length bs - i)")
     (auto simp: read_run_def Let_def split: if_splits)

declare rle_loop.simps [simp del]

definition rle_decode :: "byte list \<Rightarrow> int \<Rightarrow> int \<Rightarrow> grid" where
  "rle_decode decompressed width depth =
     fst (rle_loop decompressed width depth 0 (blank_tiles width depth, 0, 0))"

text \<open>
  \<open>base64.b64decode\<close> followed by \<open>gzip.decompress\<close> are library calls; together they
  are the parameter \<open>unwrap\<close>, which yields the inner byte stream or fails. A failure of
  either call is an exception that \<open>decode_tile_data\<close> does not catch.
\<close>

definition decode_tile_data :: "(string \<Rightarrow> byte list option) \<Rightarrow> string \<Rightarrow> int \<Rightarrow> int \<Rightarrow> error + grid" where
  "decode_tile_data unwrap tile_data width depth =
     (case unwrap tile_data of
        None \<Rightarrow> Inl DecodeError
      | Some decompressed \<Rightarrow> Inr (rle_decode decompressed width depth))"

section \<open>populate\_map.py: floor index, distances and tiers\<close>

type_synonym pos = "int \<times> int"

text \<open>\<open>find_floor_positions\<close>: the nested \<open>for x in range(width)\<close>, \<open>for z in range(depth)\<close>
  scan, appending \<open>(x, z)\<close> where the tile code is 1.\<close>

definition find_floor_positions :: "grid \<Rightarrow> int \<Rightarrow> int \<Rightarrow> pos list" where
  "find_floor_positions tiles width depth =
     concat (map (\<lambda>x. concat (map (\<lambda>z. if tiles ! x ! z = 1 then [(int x, int z)] else [])
                                    [0..<nat depth]))
                 [0..<nat width])"

text \<open>
  An entry of \<open>placed_positions\<close>. The list is built by \<open>list(spawn_pos)\<close>, which
  unpacks the tuple into its two integers, and then extended with position tuples: its
  elements are integers or pairs.
\<close>

datatype entry = Coord int | Pos pos

text \<open>The Euclidean distance of two position tuples, \<open>(dx**2 + dz**2) ** 0.5\<close>.
  Python computes it as a float; here it is the real square root, and every other float
  of the program (jitter, angles, scales) is a real number as well.\<close>

definition distance :: "pos \<Rightarrow> pos \<Rightarrow> real" where
  "distance p q = sqrt (real_of_int ((fst p - fst q)\<^sup>2 + (snd p - snd q)\<^sup>2))"

text \<open>\<open>distance_from_spawn(pos, spawn_pos)\<close> subscripts both arguments; subscripting
  an integer raises \<open>TypeError\<close>.\<close>

fun distance_from_spawn :: "pos \<Rightarrow> entry \<Rightarrow> error + real" where
  "distance_from_spawn p (Pos q) = Inr (distance p q)"
| "distance_from_spawn p (Coord n) = Inl TypeError"

definition get_tier_for_distance :: "real \<Rightarrow> int" where
  "get_tier_for_distance dist_sp =
     (if dist_sp < 30 then 1
      else if dist_sp < 60 then 2
      else if dist_sp < 100 then 3
      else if dist_sp < 150 then 4
      else 5)"

fun is_position_clear :: "pos \<Rightarrow> entry list \<Rightarrow> real \<Rightarrow> error + bool" where
  "is_position_clear p [] min_dist = Inr True"
| "is_position_clear p (existing # rest) min_dist =
     (case distance_from_spawn p existing of
        Inl e \<Rightarrow> Inl e
      | Inr d \<Rightarrow> if d < min_dist then Inr False else is_position_clear p rest min_dist)"

section \<open>populate\_map.py: entities, tables and the random source\<close>

record enemy =
  e_type :: string
  roomId :: int
  position :: pos
  level :: int
  isBoss :: bool
  rotationY :: real

record placed_prop =
  p_type :: string
  p_x :: real
  p_y :: real
  p_z :: real
  p_rotationY :: real
  p_scale :: real

definition TIER1_MONSTERS :: "string list" where
  "TIER1_MONSTERS = [''dungeon_rat'', ''slime'', ''goblin'']"

definition TIER2_MONSTERS :: "string list" where
  "TIER2_MONSTERS = [''goblin_shaman'', ''goblin_thrower'', ''spider'', ''mushroom'', ''bat'']"

definition TIER3_MONSTERS :: "string list" where
  "TIER3_MONSTERS = [''skeleton'', ''wolf'', ''lizard'', ''eye'', ''badlama'']"

definition TIER4_MONSTERS :: "string list" where
  "TIER4_MONSTERS = [''crawler_killer'', ''shadow_stalker'', ''mimic'', ''flesh_golem'']"

definition TIER5_MONSTERS :: "string list" where
  "TIER5_MONSTERS = [''living_armor'', ''plague_bearer'', ''lava_elemental'', ''void_spawn'']"

definition BOSSES :: "string list" where
  "BOSSES = [''skeleton_lord'', ''dragon_king'', ''spider_queen'', ''the_butcher'', ''mordecai'', ''mongo'']"

definition DUNGEON_PROPS :: "string list" where
  "DUNGEON_PROPS = [''barrel'', ''crate'', ''pot'', ''torch'', ''bone_pile'', ''skull_pile'', ''rubble_heap'']"

definition TREASURE_PROPS :: "string list" where
  "TREASURE_PROPS = [''chest'', ''treasure_chest'', ''scattered_coins'', ''ancient_scroll'']"

definition SPOOKY_PROPS :: "string list" where
  "SPOOKY_PROPS = [''blood_pool'', ''coiled_chains'', ''manacles'', ''discarded_sword'', ''forgotten_shield'']"

definition NATURE_PROPS :: "string list" where
  "NATURE_PROPS = [''moss_patch'', ''glowing_mushrooms'', ''water_puddle'', ''thorny_vines'']"

definition CAMP_PROPS :: "string list" where
  "CAMP_PROPS = [''campfire'', ''abandoned_campfire'', ''rat_nest'', ''moldy_bread'']"

text \<open>
  The module \<open>random\<close> is the process-wide generator. Its outputs are parameters: the list
  \<open>random.shuffle\<close> leaves behind, the raw value behind the \<open>k\<close>-th bounded draw, and the
  value of the \<open>k\<close>-th call of \<open>random.random()\<close>; \<open>k\<close> counts the draws made so far and is
  threaded through the placement state. The library functions are the standard ones:
  \<open>choice(seq) = seq[randbelow(len(seq))]\<close>, \<open>uniform(a, b) = a + (b - a) * random()\<close>,
  \<open>randint(a, b) = a + randbelow(b - a + 1)\<close>.
\<close>

record rng =
  shuffle :: "pos list \<Rightarrow> pos list"
  bits :: "nat \<Rightarrow> nat"
  unit01 :: "nat \<Rightarrow> real"

definition randbelow :: "rng \<Rightarrow> nat \<Rightarrow> nat \<Rightarrow> nat" where
  "randbelow g k n = bits g k mod n"

definition choice :: "rng \<Rightarrow> nat \<Rightarrow> 'a list \<Rightarrow> 'a" where
  "choice g k seq = seq ! randbelow g k (length seq)"

definition uniform :: "rng \<Rightarrow> nat \<Rightarrow> real \<Rightarrow> real \<Rightarrow> real" where
  "uniform g k a b = a + (b - a) * unit01 g k"

definition randint :: "rng \<Rightarrow> nat \<Rightarrow> int \<Rightarrow> int \<Rightarrow> int" where
  "randint g k a b = a + int (randbelow g k (nat (b - a + 1)))"

text \<open>Python's \<open>int()\<close> of a float truncates towards zero.\<close>

definition py_int :: "real \<Rightarrow> int" where
  "py_int r = (if r < 0 then \<lceil>r\<rceil> else \<lfloor>r\<rfloor>)"

section \<open>populate\_map.py: the placement phases\<close>

text \<open>The local variables of \<open>populate_map\<close> that the three placement loops update,
  and the number of random draws made.\<close>

record pstate =
  new_enemies :: "enemy list"
  new_props :: "placed_prop list"
  placed_positions :: "entry list"
  monsters_placed :: nat
  props_placed :: nat
  groups_placed :: nat
  draws :: nat

text \<open>Lines 145-175: the body of the Phase-A loop for an accepted position.\<close>

definition add_monster :: "rng \<Rightarrow> pos \<Rightarrow> real \<Rightarrow> pstate \<Rightarrow> pstate" where
  "add_monster g p dist_sp st =
     (let tier = get_tier_for_distance dist_sp;
          k = draws st;
          monster_type =
            (if tier = 1 then choice g k TIER1_MONSTERS
             else if tier = 2 then choice g k TIER2_MONSTERS
             else if tier = 3 then choice g k TIER3_MONSTERS
             else if tier = 4 then choice g k TIER4_MONSTERS
             else choice g k TIER5_MONSTERS);
          (monster_type, is_boss, k') =
            (if dist_sp > 120 then
               (if unit01 g (k + 1) < 0.02 then (choice g (k + 2) BOSSES, True, k + 3)
                else (monster_type, False, k + 2))
             else (monster_type, False, k + 1))
      in st\<lparr>new_enemies := new_enemies st @
                [\<lparr>e_type = monster_type, roomId = -1, position = p, level = max 1 tier,
                  isBoss = is_boss, rotationY = uniform g k' 0 6.28\<rparr>],
             placed_positions := placed_positions st @ [Pos p],
             monsters_placed := monsters_placed st + 1,
             draws := k' + 1\<rparr>)"

text \<open>Lines 131-175: \<open>for pos in floor_positions\<close> of Phase A.\<close>

fun place_monsters :: "rng \<Rightarrow> pos \<Rightarrow> nat \<Rightarrow> pos list \<Rightarrow> pstate \<Rightarrow> error + pstate" where
  "place_monsters g spawn_pos target_monsters [] st = Inr st"
| "place_monsters g spawn_pos target_monsters (p # rest) st =
     (if monsters_placed st \<ge> target_monsters then Inr st
      else case distance_from_spawn p (Pos spawn_pos) of
        Inl e \<Rightarrow> Inl e
      | Inr dist_sp \<Rightarrow>
          if dist_sp < 15 then place_monsters g spawn_pos target_monsters rest st
          else case is_position_clear p (placed_positions st) 5 of
            Inl e \<Rightarrow> Inl e
          | Inr clear \<Rightarrow>
              if \<not> clear then place_monsters g spawn_pos target_monsters rest st
              else place_monsters g spawn_pos target_monsters rest (add_monster g p dist_sp st))"

text \<open>Lines 193-215: the body of the Phase-B loop for an accepted position.\<close>

definition add_prop :: "rng \<Rightarrow> pos \<Rightarrow> real \<Rightarrow> pstate \<Rightarrow> pstate" where
  "add_prop g p dist_sp st =
     (let props =
            (if dist_sp < 30 then DUNGEON_PROPS @ CAMP_PROPS
             else if dist_sp < 80 then DUNGEON_PROPS @ NATURE_PROPS
             else if dist_sp < 130 then DUNGEON_PROPS @ SPOOKY_PROPS @ TREASURE_PROPS
             else SPOOKY_PROPS @ TREASURE_PROPS);
          k = draws st;
          prop_type = choice g k props
      in st\<lparr>new_props := new_props st @
                [\<lparr>p_type = prop_type,
                  p_x = real_of_int (fst p) + uniform g (k + 1) (-0.3) 0.3,
                  p_y = 0,
                  p_z = real_of_int (snd p) + uniform g (k + 2) (-0.3) 0.3,
                  p_rotationY = uniform g (k + 3) 0 6.28,
                  p_scale = uniform g (k + 4) 0.8 1.2\<rparr>],
             placed_positions := placed_positions st @ [Pos p],
             props_placed := props_placed st + 1,
             draws := k + 5\<rparr>)"

text \<open>Lines 183-215: \<open>for pos in floor_positions\<close> of Phase B.\<close>

fun place_props :: "rng \<Rightarrow> pos \<Rightarrow> nat \<Rightarrow> pos list \<Rightarrow> pstate \<Rightarrow> error + pstate" where
  "place_props g spawn_pos target_props [] st = Inr st"
| "place_props g spawn_pos target_props (p # rest) st =
     (if props_placed st \<ge> target_props then Inr st
      else case distance_from_spawn p (Pos spawn_pos) of
        Inl e \<Rightarrow> Inl e
      | Inr dist_sp \<Rightarrow>
          (case is_position_clear p (placed_positions st) 2 of
            Inl e \<Rightarrow> Inl e
          | Inr clear \<Rightarrow>
              if \<not> clear then place_props g spawn_pos target_props rest st
              else place_props g spawn_pos target_props rest (add_prop g p dist_sp st)))"

text \<open>Lines 243-261: one pass of \<open>for i in range(cluster_size)\<close>.\<close>

definition add_member ::
  "rng \<Rightarrow> grid \<Rightarrow> int \<Rightarrow> int \<Rightarrow> pos \<Rightarrow> int \<Rightarrow> string list \<Rightarrow> pstate \<Rightarrow> pstate" where
  "add_member g tiles width depth p tier monster_pool st =
     (let k = draws st;
          offset_x = uniform g k (-4) 4;
          offset_z = uniform g (k + 1) (-4) 4;
          monster_pos = (py_int (real_of_int (fst p) + offset_x),
                         py_int (real_of_int (snd p) + offset_z))
      in if fst monster_pos < 0 \<or> fst monster_pos \<ge> width then st\<lparr>draws := k + 2\<rparr>
         else if snd monster_pos < 0 \<or> snd monster_pos \<ge> depth then st\<lparr>draws := k + 2\<rparr>
         else if tiles ! nat (fst monster_pos) ! nat (snd monster_pos) \<noteq> 1
           then st\<lparr>draws := k + 2\<rparr>
         else st\<lparr>new_enemies := new_enemies st @
                     [\<lparr>e_type = choice g (k + 2) monster_pool, roomId = -1,
                       position = monster_pos, level = max 1 tier, isBoss = False,
                       rotationY = uniform g (k + 3) 0 6.28\<rparr>],
                  draws := k + 4\<rparr>)"

primrec add_members ::
  "rng \<Rightarrow> grid \<Rightarrow> int \<Rightarrow> int \<Rightarrow> pos \<Rightarrow> int \<Rightarrow> string list \<Rightarrow> nat \<Rightarrow> pstate \<Rightarrow> pstate" where
  "add_members g tiles width depth p tier monster_pool 0 st = st"
| "add_members g tiles width depth p tier monster_pool (Suc n) st =
     add_members g tiles width depth p tier monster_pool n
       (add_member g tiles width depth p tier monster_pool st)"

text \<open>Lines 231-264: the body of the Phase-C loop for an accepted anchor.\<close>

definition add_group :: "rng \<Rightarrow> grid \<Rightarrow> int \<Rightarrow> int \<Rightarrow> pos \<Rightarrow> real \<Rightarrow> pstate \<Rightarrow> pstate" where
  "add_group g tiles width depth p dist_sp st =
     (let cluster_size = randint g (draws st) 3 5;
          tier = get_tier_for_distance dist_sp;
          monster_pool =
            (if tier \<le> 2 then TIER1_MONSTERS @ TIER2_MONSTERS
             else if tier \<le> 3 then TIER2_MONSTERS @ TIER3_MONSTERS
             else TIER3_MONSTERS @ TIER4_MONSTERS);
          st1 = add_members g tiles width depth p tier monster_pool (nat cluster_size)
                  (st\<lparr>draws := draws st + 1\<rparr>)
      in st1\<lparr>placed_positions := placed_positions st1 @ [Pos p],
              groups_placed := groups_placed st1 + 1\<rparr>)"

text \<open>Lines 223-264: \<open>for pos in floor_positions[::50]\<close> of Phase C; \<open>or\<close> does not
  evaluate the clearance check when \<open>dist_sp < 40\<close>.\<close>

fun place_groups ::
  "rng \<Rightarrow> grid \<Rightarrow> int \<Rightarrow> int \<Rightarrow> pos \<Rightarrow> nat \<Rightarrow> pos list \<Rightarrow> pstate \<Rightarrow> error + pstate" where
  "place_groups g tiles width depth spawn_pos groups_to_add [] st = Inr st"
| "place_groups g tiles width depth spawn_pos groups_to_add (p # rest) st =
     (if groups_placed st \<ge> groups_to_add then Inr st
      else case distance_from_spawn p (Pos spawn_pos) of
        Inl e \<Rightarrow> Inl e
      | Inr dist_sp \<Rightarrow>
          if dist_sp < 40 then place_groups g tiles width depth spawn_pos groups_to_add rest st
          else case is_position_clear p (placed_positions st) 10 of
            Inl e \<Rightarrow> Inl e
          | Inr clear \<Rightarrow>
              if \<not> clear then place_groups g tiles width depth spawn_pos groups_to_add rest st
              else place_groups g tiles width depth spawn_pos groups_to_add rest
                     (add_group g tiles width depth p dist_sp st))"

text \<open>The slice \<open>xs[::n]\<close>: every \<open>n\<close>-th element, starting with the first.\<close>

fun stride :: "nat \<Rightarrow> 'a list \<Rightarrow> 'a list" where
  "stride n [] = []"
| "stride n (x # xs) = x # stride n (drop (n - 1) xs)"

section \<open>populate\_map.py: the document and the whole run\<close>

text \<open>
  The level document as \<open>json.load\<close> returns it. A key that \<open>populate_map\<close> reads with
  \<open>.get(key, default)\<close> may be absent (\<open>None\<close>). Existing entity records are well-formed
  records of the document format: every existing enemy has its \<open>position\<close> with \<open>x\<close>
  and \<open>z\<close>.
\<close>

record document =
  d_width :: "int option"
  d_depth :: "int option"
  d_spawnPosition :: "(int option \<times> int option) option"
  d_tileData :: "string option"
  d_enemies :: "enemy list option"
  d_placedProps :: "placed_prop list option"
  d_name :: "string option"

definition get_or :: "'a option \<Rightarrow> 'a \<Rightarrow> 'a" where
  "get_or v dflt = (case v of None \<Rightarrow> dflt | Some x \<Rightarrow> x)"

definition spawn_of :: "document \<Rightarrow> pos" where
  "spawn_of map_data =
     (let width = get_or (d_width map_data) 100;
          depth = get_or (d_depth map_data) 100;
          sp = get_or (d_spawnPosition map_data) (None, None)
      in (get_or (fst sp) (width div 2), get_or (snd sp) (depth div 2)))"

text \<open>Lines 114-119: \<open>placed_positions = list(spawn_pos)\<close>, then one tuple per existing
  enemy.\<close>

definition initial_register :: "pos \<Rightarrow> enemy list \<Rightarrow> entry list" where
  "initial_register spawn_pos existing =
     [Coord (fst spawn_pos), Coord (snd spawn_pos)] @ map (\<lambda>e. Pos (position e)) existing"

definition start_state :: "entry list \<Rightarrow> pstate" where
  "start_state placed =
     \<lparr>new_enemies = [], new_props = [], placed_positions = placed,
      monsters_placed = 0, props_placed = 0, groups_placed = 0, draws = 0\<rparr>"

text \<open>Lines 127-266: the three placement loops in sequence, on the shuffled floor list.\<close>

definition run_phases ::
  "rng \<Rightarrow> grid \<Rightarrow> int \<Rightarrow> int \<Rightarrow> pos \<Rightarrow> pos list \<Rightarrow> entry list \<Rightarrow> error + pstate" where
  "run_phases g tiles width depth spawn_pos floor_positions placed =
     (case place_monsters g spawn_pos (length floor_positions div 100) floor_positions
             (start_state placed) of
        Inl e \<Rightarrow> Inl e
      | Inr st1 \<Rightarrow>
          (case place_props g spawn_pos (length floor_positions div 50) floor_positions st1 of
             Inl e \<Rightarrow> Inl e
           | Inr st2 \<Rightarrow>
               place_groups g tiles width depth spawn_pos
                 (min 20 (length floor_positions div 500)) (stride 50 floor_positions) st2))"

text \<open>Lines 268-271: the merge with the existing data.\<close>

definition merge :: "document \<Rightarrow> enemy list \<Rightarrow> placed_prop list \<Rightarrow> document" where
  "merge map_data gen_enemies gen_props =
     map_data\<lparr>d_enemies := Some (get_or (d_enemies map_data) [] @ gen_enemies),
              d_placedProps := Some (get_or (d_placedProps map_data) [] @ gen_props),
              d_name := Some (get_or (d_name map_data) ''Map'' @ '' (Populated)'')\<rparr>"

text \<open>
  The outcome of a call of \<open>populate_map\<close>: it returns after saving, it returns early
  because there is no tile data, or it raises. The file system maps a path to the
  document stored there; \<open>json.dump\<close> to \<open>output_path\<close> is the only write.
\<close>

datatype outcome = Saved | NoTileData | Raised error

type_synonym files = "string \<rightharpoonup> document"

definition populate_map ::
  "(string \<Rightarrow> byte list option) \<Rightarrow> rng \<Rightarrow> files \<Rightarrow> string \<Rightarrow> string \<Rightarrow> outcome \<times> files" where
  "populate_map unwrap g fs input_path output_path =
     (case fs input_path of
        None \<Rightarrow> (Raised FileNotFoundError, fs)
      | Some map_data \<Rightarrow>
          (let width = get_or (d_width map_data) 100;
               depth = get_or (d_depth map_data) 100;
               spawn_pos = spawn_of map_data;
               tile_data = get_or (d_tileData map_data) []
           in if tile_data = [] then (NoTileData, fs)
              else case decode_tile_data unwrap tile_data width depth of
                Inl e \<Rightarrow> (Raised e, fs)
              | Inr tiles \<Rightarrow>
                  (let floor_positions = find_floor_positions tiles width depth;
                       placed = initial_register spawn_pos (get_or (d_enemies map_data) []);
                       floor_positions = shuffle g floor_positions
                   in case run_phases g tiles width depth spawn_pos floor_positions placed of
                        Inl e \<Rightarrow> (Raised e, fs)
                      | Inr st \<Rightarrow>
                          (Saved, fs(output_path \<mapsto> merge map_data (new_enemies st) (new_props st))))))"

section \<open>Predicates used to state the properties\<close>

text \<open>A grid of \<open>w\<close> rows with \<open>d\<close> entries each.\<close>

definition grid_shape :: "grid \<Rightarrow> nat \<Rightarrow> nat \<Rightarrow> bool" where
  "grid_shape tiles w d = (length tiles = w \<and> list_all (\<lambda>row. length row = d) tiles)"

text \<open>
  The RLE grammar in the words of the specification: read a value byte; if the next byte is
  the sentinel \<open>0xFF\<close>, consume it and read a count byte, the run repeating the value that
  many times; otherwise the run length is 1. A sentinel with no count byte after it leaves
  the run length at 1. \<open>expand_runs\<close> is the sequence of values the runs of a stream stand
  for, in order; it is compared below with what \<open>rle_decode\<close> writes.
\<close>

fun expand_runs :: "byte list \<Rightarrow> nat list" where
  "expand_runs [] = []"
| "expand_runs [v] = [unat v]"
| "expand_runs (v # s # rest) =
     (if s = 0xFF then
        (case rest of
           [] \<Rightarrow> [unat v]
         | c # rest' \<Rightarrow> replicate (unat c) (unat v) @ expand_runs rest')
      else unat v # expand_runs (s # rest))"

text \<open>
  The cells of a \<open>W\<close> by \<open>D\<close> grid hold the values \<open>E\<close> in column-major order
  (cell \<open>(a, b)\<close> holds the value of index \<open>a * D + b\<close>) and 0 where \<open>E\<close> has run
  out; \<open>decoded_prefix\<close> adds that the cursor \<open>(x, z)\<close> of the decoding loop stands
  right after the values written so far.
\<close>

definition cells_of :: "nat \<Rightarrow> nat \<Rightarrow> nat list \<Rightarrow> grid \<Rightarrow> bool" where
  "cells_of W D E tiles =
     (\<forall>a<W. \<forall>b<D. tiles ! a ! b = (if a * D + b < length E then E ! (a * D + b) else 0))"

definition decoded_prefix :: "nat \<Rightarrow> nat \<Rightarrow> nat list \<Rightarrow> grid \<times> nat \<times> nat \<Rightarrow> bool" where
  "decoded_prefix W D E s =
     (case s of (tiles, x, z) \<Rightarrow>
        grid_shape tiles W D \<and> z < D \<and> x * D + z = min (length E) (W * D) \<and> cells_of W D E tiles)"

text \<open>A stream of complete runs \<open>(value, 0xFF, count)\<close>, and the cells such runs fill.\<close>

fun complete_runs :: "(byte \<times> byte) list \<Rightarrow> byte list" where
  "complete_runs [] = []"
| "complete_runs ((v, c) # rs) = v # 0xFF # c # complete_runs rs"

fun run_cells :: "(byte \<times> byte) list \<Rightarrow> nat list" where
  "run_cells [] = []"
| "run_cells ((v, c) # rs) = replicate (unat c) (unat v) @ run_cells rs"

text \<open>Each position of a list passed the clearance check, with minimum distance \<open>d\<close>,
  against the register as it stood when the position was appended to it.\<close>

fun apart :: "real \<Rightarrow> entry list \<Rightarrow> pos list \<Rightarrow> bool" where
  "apart d reg [] = True"
| "apart d reg (p # ps) = (is_position_clear p reg d = Inr True \<and> apart d (reg @ [Pos p]) ps)"

text \<open>A floor cell of the grid: in bounds, with tile code 1.\<close>

definition is_floor :: "grid \<Rightarrow> int \<Rightarrow> int \<Rightarrow> pos \<Rightarrow> bool" where
  "is_floor tiles width depth p =
     (0 \<le> fst p \<and> fst p < width \<and> 0 \<le> snd p \<and> snd p < depth
      \<and> tiles ! nat (fst p) ! nat (snd p) = 1)"

text \<open>What Phase C emits for a cluster member around an anchor of a given tier.\<close>

definition cluster_member :: "grid \<Rightarrow> int \<Rightarrow> int \<Rightarrow> int \<Rightarrow> enemy \<Rightarrow> bool" where
  "cluster_member tiles width depth tier m =
     (is_floor tiles width depth (position m) \<and> \<not> isBoss m \<and> level m = tier \<and> roomId m = -1)"

text \<open>A prop record emitted for the floor cell \<open>c\<close>: the cell's coordinates as floats,
  each with its own \<open>uniform(-0.3, 0.3)\<close> jitter, and \<open>y = 0.0\<close>.\<close>

definition prop_on :: "rng \<Rightarrow> placed_prop \<Rightarrow> pos \<Rightarrow> bool" where
  "prop_on g pr c =
     (\<exists>k. p_x pr = real_of_int (fst c) + uniform g (k + 1) (-0.3) 0.3
         \<and> p_z pr = real_of_int (snd c) + uniform g (k + 2) (-0.3) 0.3
         \<and> p_y pr = 0)"

text \<open>The positions a phase has added to the register between two states.\<close>

fun entry_positions :: "entry list \<Rightarrow> pos list" where
  "entry_positions [] = []"
| "entry_positions (Pos p # es) = p # entry_positions es"
| "entry_positions (Coord n # es) = entry_positions es"

definition placed_between :: "pstate \<Rightarrow> pstate \<Rightarrow> pos list" where
  "placed_between st st' =
     entry_positions (drop (length (placed_positions st)) (placed_positions st'))"

text \<open>\<open>random.shuffle\<close> permutes the list in place: every element keeps its number of
  occurrences.\<close>

definition permutation_of :: "'a list \<Rightarrow> 'a list \<Rightarrow> bool" where
  "permutation_of ys xs = (\<forall>x. count_list ys x = count_list xs x)"

text \<open>The cell Phase C tries for a cluster member of the anchor \<open>p\<close> when its two offsets
  are the draws \<open>k\<close> and \<open>k + 1\<close>: \<open>(int(pos[0] + offset_x), int(pos[1] + offset_z))\<close>.\<close>

definition member_candidate :: "rng \<Rightarrow> pos \<Rightarrow> nat \<Rightarrow> pos" where
  "member_candidate g p k =
     (py_int (real_of_int (fst p) + uniform g k (-4) 4),
      py_int (real_of_int (snd p) + uniform g (k + 1) (-4) 4))"

text \<open>A monster emitted as a member of the cluster around the anchor \<open>a\<close>: it stands on a
  floor cell that is a candidate cell of \<open>a\<close>, is no boss, and has the tier of \<open>a\<close>
  as its level.\<close>

definition own_member :: "rng \<Rightarrow> grid \<Rightarrow> int \<Rightarrow> int \<Rightarrow> pos \<Rightarrow> pos \<Rightarrow> enemy \<Rightarrow> bool" where
  "own_member g tiles width depth spawn_pos a m =
     (is_floor tiles width depth (position m) \<and> \<not> isBoss m
      \<and> level m = get_tier_for_distance (distance a spawn_pos)
      \<and> (\<exists>k. position m = member_candidate g a k))"

text \<open>Two registers that answer every clearance check alike.\<close>

definition same_clearance :: "entry list \<Rightarrow> entry list \<Rightarrow> bool" where
  "same_clearance r r' = (\<forall>p d. is_position_clear p r d = is_position_clear p r' d)"

text \<open>Two placement states that differ at most in their registers, which answer every
  clearance check alike.\<close>

definition same_but_register :: "pstate \<Rightarrow> pstate \<Rightarrow> bool" where
  "same_but_register st st' =
     (new_enemies st = new_enemies st' \<and> new_props st = new_props st'
      \<and> monsters_placed st = monsters_placed st' \<and> props_placed st = props_placed st'
      \<and> groups_placed st = groups_placed st' \<and> draws st = draws st'
      \<and> same_clearance (placed_positions st) (placed_positions st'))"

text \<open>What a run of the placement loops hands to the merge: the generated monsters and
  props, or the error raised.\<close>

definition generated :: "error + pstate \<Rightarrow> error + enemy list \<times> placed_prop list" where
  "generated r = (case r of Inl e \<Rightarrow> Inl e | Inr st \<Rightarrow> Inr (new_enemies st, new_props st))"

section \<open>Shape of the decoded grid\<close>

lemma grid_shape_blank: "grid_shape (blank_tiles width depth) (nat width) (nat depth)"
  by (simp add: grid_shape_def blank_tiles_def list_all_iff)

lemma grid_shape_update:
  "grid_shape tiles w d \<Longrightarrow> grid_shape (tiles[x := (tiles ! x)[z := v]]) w d"
proof (cases "x < length tiles")
  case True
  assume "grid_shape tiles w d"
  with True show ?thesis
    by (auto simp: grid_shape_def list_all_iff dest!: set_update_subset_insert [THEN subsetD])
next
  case False
  assume "grid_shape tiles w d"
  with False show ?thesis by (simp add: list_update_beyond)
qed

lemma put_tile_shape:
  "grid_shape (fst s) w d \<Longrightarrow> grid_shape (fst (put_tile width depth v s)) w d"
  by (cases s) (auto simp: Let_def grid_shape_update)

lemma write_run_shape:
  "grid_shape (fst s) w d \<Longrightarrow> grid_shape (fst (write_run width depth v n s)) w d"
  by (induction n arbitrary: s) (auto simp: put_tile_shape)

lemma rle_loop_shape:
  "grid_shape (fst s) w d \<Longrightarrow> grid_shape (fst (rle_loop bs width depth i s)) w d"
proof (induction bs width depth i s rule: rle_loop.induct)
  case (1 bs width depth i tiles x z)
  show ?case
  proof (cases "i < length bs \<and> int x < width")
    case True
    obtain v c j where rr: "read_run bs i = (v, c, j)"
      by (cases "read_run bs i") auto
    have "grid_shape (fst (write_run width depth v c (tiles, x, z))) w d"
      using "1.prems" by (rule write_run_shape)
    with "1.IH" [OF True rr [symmetric] refl] True rr show ?thesis
      by (simp add: rle_loop.simps [of bs width depth i])
  next
    case False
    with "1.prems" show ?thesis
      by (subst rle_loop.simps) auto
  qed
qed

lemma rle_decode_shape: "grid_shape (rle_decode bs width depth) (nat width) (nat depth)"
  unfolding rle_decode_def by (rule rle_loop_shape) (simp add: grid_shape_blank)

text \<open>
  Claim C5. Whenever the outer layer decompresses (\<open>unwrap\<close> succeeds), \<open>decode_tile_data\<close>
  returns a grid, and for grid dimensions \<open>width\<close>, \<open>depth\<close> (non-negative integers) that
  grid has exactly \<open>width\<close> rows, each of exactly \<open>depth\<close> entries.
\<close>

theorem decode_grid_shape:
  assumes "unwrap blob = Some decompressed" and "0 \<le> width" and "0 \<le> depth"
  shows "\<exists>tiles. decode_tile_data unwrap blob width depth = Inr tiles
           \<and> int (length tiles) = width
           \<and> (\<forall>row \<in> set tiles. int (length row) = depth)"
proof -
  have "grid_shape (rle_decode decompressed width depth) (nat width) (nat depth)"
    by (rule rle_decode_shape)
  with assms show ?thesis
    by (simp add: decode_tile_data_def grid_shape_def list_all_iff)
qed

theorem decode_grid_shape_witness:
  "\<exists>tiles. decode_tile_data (\<lambda>s. Some [1, 0xFF, 3, 0, 1]) ''blob'' 2 3 = Inr tiles
           \<and> int (length tiles) = 2
           \<and> (\<forall>row \<in> set tiles. int (length row) = 3)"
  using decode_grid_shape [of "\<lambda>s. Some [1, 0xFF, 3, 0, 1]" "''blob''" "[1, 0xFF, 3, 0, 1]" 2 3]
  by simp

section \<open>The run-length grammar and the cells a stream fills\<close>

lemma read_run_expand:
  assumes "i < length bs" and "read_run bs i = (v, c, j)"
  shows "expand_runs (drop i bs) = replicate c v @ expand_runs (drop j bs) \<and> j \<le> length bs"
proof -
  have d0: "drop i bs = bs ! i # drop (Suc i) bs"
    using assms(1) by (simp add: Cons_nth_drop_Suc)
  show ?thesis
  proof (cases "Suc i < length bs")
    case False
    with assms d0 show ?thesis by (auto simp: read_run_def Let_def)
  next
    case s1: True
    then have d1: "drop (Suc i) bs = bs ! Suc i # drop (Suc (Suc i)) bs"
      by (simp add: Cons_nth_drop_Suc)
    show ?thesis
    proof (cases "Suc (Suc i) < length bs")
      case False
      with assms d0 d1 s1 show ?thesis by (auto simp: read_run_def Let_def)
    next
      case True
      then have d2: "drop (Suc (Suc i)) bs = bs ! Suc (Suc i) # drop (Suc (Suc (Suc i))) bs"
        by (simp add: Cons_nth_drop_Suc)
      with assms d0 d1 s1 True show ?thesis by (auto simp: read_run_def Let_def)
    qed
  qed
qed

lemma lin_inj:
  fixes a b x z D :: nat
  assumes "b < D" "z < D" "a * D + b = x * D + z"
  shows "a = x \<and> b = z"
proof -
  have "a = (a * D + b) div D" using assms(1) by simp
  also have "\<dots> = (x * D + z) div D" by (simp only: assms(3))
  also have "\<dots> = x" using assms(2) by simp
  finally have "a = x" .
  with assms(3) show ?thesis by simp
qed

lemma lin_bound:
  fixes a b W D :: nat
  assumes "a < W" "b < D"
  shows "a * D + b < W * D"
proof -
  have "a * D + b < a * D + D" using assms by simp
  also have "\<dots> = Suc a * D" by simp
  also have "\<dots> \<le> W * D" using assms by (intro mult_le_mono1) simp
  finally show ?thesis .
qed

lemma nth_nth_update:
  assumes "grid_shape tiles W D" "a < W" "b < D"
  shows "tiles[x := (tiles ! x)[z := v]] ! a ! b = (if a = x \<and> b = z then v else tiles ! a ! b)"
proof (cases "a = x")
  case True
  from assms have "length (tiles ! a) = D" and "a < length tiles"
    by (auto simp: grid_shape_def list_all_iff)
  with True assms(3) show ?thesis
    by (cases "b = z") simp_all
next
  case False
  then show ?thesis by simp
qed

lemma decoded_prefix_blank:
  "0 < nat depth \<Longrightarrow> decoded_prefix (nat width) (nat depth) [] (blank_tiles width depth, 0, 0)"
  using grid_shape_blank [of width depth]
  by (simp add: decoded_prefix_def cells_of_def) (simp add: blank_tiles_def)

lemma put_tile_prefix:
  assumes "decoded_prefix (nat width) (nat depth) E s"
  shows "decoded_prefix (nat width) (nat depth) (E @ [v]) (put_tile width depth v s)"
proof -
  obtain tiles x z where s: "s = (tiles, x, z)" by (cases s) auto
  let ?W = "nat width" and ?D = "nat depth"
  from assms s have sh: "grid_shape tiles ?W ?D" and zD: "z < ?D"
    and lin: "x * ?D + z = min (length E) (?W * ?D)" and cells: "cells_of ?W ?D E tiles"
    by (auto simp: decoded_prefix_def)
  have zd: "int z < depth" using zD by linarith
  show ?thesis
  proof (cases "int x < width")
    case True
    then have xW: "x < ?W" by linarith
    have lt: "x * ?D + z < ?W * ?D" using xW zD by (rule lin_bound)
    with lin have len: "length E = x * ?D + z" by linarith
    let ?t = "tiles[x := (tiles ! x)[z := v]]"
    have sh': "grid_shape ?t ?W ?D" using sh by (rule grid_shape_update)
    have cells': "cells_of ?W ?D (E @ [v]) ?t"
      unfolding cells_of_def
    proof (intro allI impI)
      fix a b assume a: "a < ?W" and b: "b < ?D"
      have old: "tiles ! a ! b = (if a * ?D + b < length E then E ! (a * ?D + b) else 0)"
        using cells a b by (simp add: cells_of_def)
      show "?t ! a ! b = (if a * ?D + b < length (E @ [v]) then (E @ [v]) ! (a * ?D + b) else 0)"
      proof (cases "a = x \<and> b = z")
        case True
        then show ?thesis using sh a b len by (simp add: nth_nth_update nth_append)
      next
        case False
        then have "a * ?D + b \<noteq> length E" using lin_inj [OF b zD] len by metis
        then show ?thesis using False sh a b old
          by (auto simp: nth_nth_update nth_append)
      qed
    qed
    show ?thesis
    proof (cases "int (z + 1) \<ge> depth")
      case True
      then have "Suc z = ?D" using zD by linarith
      then have "Suc x * ?D + 0 = Suc (length E)" using len by simp
      moreover have "Suc (length E) \<le> ?W * ?D" using lt len by simp
      ultimately show ?thesis using s \<open>int x < width\<close> zd True sh' cells' zD
        by (simp add: decoded_prefix_def Let_def)
    next
      case False
      then have "Suc z < ?D" by linarith
      moreover have "Suc (length E) \<le> ?W * ?D" using lt len by simp
      ultimately show ?thesis using s \<open>int x < width\<close> zd False sh' cells' len
        by (simp add: decoded_prefix_def Let_def)
    qed
  next
    case False
    then have "\<not> x < ?W" by linarith
    then have "?W * ?D \<le> x * ?D + z" by (simp add: not_less trans_le_add1)
    with lin have full: "?W * ?D \<le> length E" by linarith
    have "cells_of ?W ?D (E @ [v]) tiles"
      unfolding cells_of_def
    proof (intro allI impI)
      fix a b assume a: "a < ?W" and b: "b < ?D"
      then have "a * ?D + b < length E" using lin_bound [OF a b] full by linarith
      then show "tiles ! a ! b = (if a * ?D + b < length (E @ [v]) then (E @ [v]) ! (a * ?D + b) else 0)"
        using cells a b by (simp add: cells_of_def nth_append)
    qed
    with False s sh zD lin full show ?thesis
      by (simp add: decoded_prefix_def)
  qed
qed

lemma write_run_prefix:
  "decoded_prefix (nat width) (nat depth) E s \<Longrightarrow>
     decoded_prefix (nat width) (nat depth) (E @ replicate n v) (write_run width depth v n s)"
proof (induction n arbitrary: E s)
  case 0
  then show ?case by simp
next
  case (Suc n)
  from Suc.prems have "decoded_prefix (nat width) (nat depth) (E @ [v]) (put_tile width depth v s)"
    by (rule put_tile_prefix)
  from Suc.IH [OF this] show ?case by (simp add: replicate_app_Cons_same)
qed

lemma full_prefix_cells:
  assumes "decoded_prefix (nat width) (nat depth) E (tiles, x, z)" and "\<not> int x < width"
  shows "cells_of (nat width) (nat depth) (E @ F) tiles"
proof -
  let ?W = "nat width" and ?D = "nat depth"
  from assms have lin: "x * ?D + z = min (length E) (?W * ?D)" and cells: "cells_of ?W ?D E tiles"
    by (auto simp: decoded_prefix_def)
  from assms(2) have "\<not> x < ?W" by linarith
  then have "?W * ?D \<le> x * ?D + z" by (simp add: not_less trans_le_add1)
  with lin have full: "?W * ?D \<le> length E" by linarith
  show ?thesis
    unfolding cells_of_def
  proof (intro allI impI)
    fix a b assume a: "a < ?W" and b: "b < ?D"
    then have "a * ?D + b < length E" using lin_bound [OF a b] full by linarith
    then show "tiles ! a ! b = (if a * ?D + b < length (E @ F) then (E @ F) ! (a * ?D + b) else 0)"
      using cells a b by (simp add: cells_of_def nth_append)
  qed
qed

lemma rle_loop_cells:
  assumes "decoded_prefix (nat width) (nat depth) E s"
  shows "cells_of (nat width) (nat depth) (E @ expand_runs (drop i bs))
           (fst (rle_loop bs width depth i s))"
  using assms
proof (induction bs width depth i s arbitrary: E rule: rle_loop.induct)
  case (1 bs width depth i tiles x z)
  show ?case
  proof (cases "i < length bs \<and> int x < width")
    case True
    obtain v c j where rr: "read_run bs i = (v, c, j)"
      by (cases "read_run bs i") auto
    from True rr have ex: "expand_runs (drop i bs) = replicate c v @ expand_runs (drop j bs)"
      using read_run_expand by blast
    have "decoded_prefix (nat width) (nat depth) (E @ replicate c v)
            (write_run width depth v c (tiles, x, z))"
      using "1.prems" by (rule write_run_prefix)
    from "1.IH" [OF True rr [symmetric] refl this] True rr ex show ?thesis
      by (simp add: rle_loop.simps [of bs width depth i])
  next
    case False
    show ?thesis
    proof (cases "int x < width")
      case True
      with False have "drop i bs = []" by simp
      with "1.prems" False show ?thesis
        by (subst rle_loop.simps) (auto simp: decoded_prefix_def)
    next
      case nx: False
      from full_prefix_cells [OF "1.prems" nx] False show ?thesis
        by (subst rle_loop.simps) auto
    qed
  qed
qed

lemma rle_decode_cells:
  assumes "int x < width" and "int z < depth"
  shows "rle_decode bs width depth ! x ! z =
           (if x * nat depth + z < length (expand_runs bs)
            then expand_runs bs ! (x * nat depth + z) else 0)"
proof -
  from assms have "0 < nat depth" by linarith
  then have "decoded_prefix (nat width) (nat depth) [] (blank_tiles width depth, 0, 0)"
    by (rule decoded_prefix_blank)
  from rle_loop_cells [OF this, of 0 bs]
  have "cells_of (nat width) (nat depth) (expand_runs bs) (rle_decode bs width depth)"
    by (simp add: rle_decode_def)
  moreover have "x < nat width" "z < nat depth" using assms by linarith+
  ultimately show ?thesis by (simp add: cells_of_def)
qed

lemma expand_complete_runs:
  "expand_runs (complete_runs rs @ tail) = run_cells rs @ expand_runs tail"
  by (induction rs) auto

lemma first_run_state:
  assumes "1 \<le> width" and "5 \<le> depth"
    and "write_run width depth 1 5 (blank_tiles width depth, 0, 0) = (tiles, x, z)"
  shows "(\<forall>k<5. tiles ! 0 ! k = 1) \<and>
         (\<forall>a b. 0 < a \<and> int a < width \<and> int b < depth \<longrightarrow> tiles ! a ! b = 0)"
proof -
  let ?W = "nat width" and ?D = "nat depth"
  have D: "5 \<le> ?D" and W: "0 < ?W" using assms by linarith+
  then have "decoded_prefix ?W ?D [] (blank_tiles width depth, 0, 0)"
    by (intro decoded_prefix_blank) simp
  from write_run_prefix [OF this, of 5 1] assms(3)
  have c: "cells_of ?W ?D (replicate 5 1) tiles"
    by (simp add: decoded_prefix_def)
  have "tiles ! 0 ! k = 1" if "k < 5" for k
    using c W D that by (simp add: cells_of_def)
  moreover have "tiles ! a ! b = 0" if "0 < a" "int a < width" "int b < depth" for a b
  proof -
    have "a < ?W" "b < ?D" using that by linarith+
    moreover have "?D \<le> a * ?D" using that(1) by simp
    then have "\<not> a * ?D + b < 5" using D by linarith
    ultimately show ?thesis using c by (simp add: cells_of_def)
  qed
  ultimately show ?thesis by blast
qed

lemma first_run_step:
  assumes "1 \<le> width"
  shows "rle_decode (1 # 0xFF # 5 # rest) width depth =
           fst (rle_loop (1 # 0xFF # 5 # rest) width depth 3
                  (write_run width depth 1 5 (blank_tiles width depth, 0, 0)))"
proof -
  have "read_run (1 # 0xFF # 5 # rest) 0 = (1, 5, 3)"
    by (simp add: read_run_def)
  with assms show ?thesis
    by (simp add: rle_decode_def rle_loop.simps [of _ width depth 0])
qed

text \<open>
  Claim C6. Decoding fills the grid in column-major order: the \<open>k\<close>-th value of the
  expanded runs lands in cell \<open>(k div depth, k mod depth)\<close>, so \<open>z\<close> runs first and
  \<open>x\<close> advances when \<open>z\<close> reaches \<open>depth\<close>. For a stream that begins with the run
  (value 1, sentinel, count 5), with \<open>depth \<ge> 5\<close>, the state after that first run has
  \<open>tiles[0][0..4]\<close> equal to 1 and every row \<open>x > 0\<close> still blank, the loop continues
  from that state, and the final grid keeps \<open>tiles[0][0..4] = 1\<close>.
\<close>

theorem decode_column_major:
  "(\<forall>x z. int x < width \<and> int z < depth \<longrightarrow>
      rle_decode bs width depth ! x ! z =
        (if x * nat depth + z < length (expand_runs bs)
         then expand_runs bs ! (x * nat depth + z) else 0))
   \<and> (1 \<le> width \<and> 5 \<le> depth \<longrightarrow>
        (case write_run width depth 1 5 (blank_tiles width depth, 0, 0) of
           (tiles, x, z) \<Rightarrow>
             rle_decode (1 # 0xFF # 5 # rest) width depth =
               fst (rle_loop (1 # 0xFF # 5 # rest) width depth 3 (tiles, x, z))
             \<and> (\<forall>k<5. tiles ! 0 ! k = 1)
             \<and> (\<forall>a b. 0 < a \<and> int a < width \<and> int b < depth \<longrightarrow> tiles ! a ! b = 0))
        \<and> (\<forall>k<5. rle_decode (1 # 0xFF # 5 # rest) width depth ! 0 ! k = 1))"
proof (intro conjI allI impI)
  fix x z assume "int x < width \<and> int z < depth"
  then show "rle_decode bs width depth ! x ! z =
        (if x * nat depth + z < length (expand_runs bs)
         then expand_runs bs ! (x * nat depth + z) else 0)"
    by (simp add: rle_decode_cells)
next
  assume h: "1 \<le> width \<and> 5 \<le> depth"
  obtain tiles x z where w: "write_run width depth 1 5 (blank_tiles width depth, 0, 0) = (tiles, x, z)"
    by (cases "write_run width depth 1 5 (blank_tiles width depth, 0, 0)") auto
  from h first_run_state [OF _ _ w] first_run_step [of width rest depth] w
  show "case write_run width depth 1 5 (blank_tiles width depth, 0, 0) of
           (tiles, x, z) \<Rightarrow>
             rle_decode (1 # 0xFF # 5 # rest) width depth =
               fst (rle_loop (1 # 0xFF # 5 # rest) width depth 3 (tiles, x, z))
             \<and> (\<forall>k<5. tiles ! 0 ! k = 1)
             \<and> (\<forall>a b. 0 < a \<and> int a < width \<and> int b < depth \<longrightarrow> tiles ! a ! b = 0)"
    by simp
next
  fix k :: nat assume h: "1 \<le> width \<and> 5 \<le> depth" and k: "k < 5"
  have "expand_runs (1 # 0xFF # 5 # rest) = replicate 5 1 @ expand_runs rest"
    by simp
  moreover have "int 0 < width" "int k < depth" using h k by linarith+
  ultimately show "rle_decode (1 # 0xFF # 5 # rest) width depth ! 0 ! k = 1"
    using k by (simp add: rle_decode_cells nth_append)
qed

theorem decode_column_major_witness:
  "rle_decode [1, 0xFF, 5, 2, 3] 2 5 ! 1 ! 0 = 2
   \<and> rle_decode [1, 0xFF, 5, 2, 3] 2 5 ! 1 ! 2 = 0
   \<and> fst (write_run 2 5 1 5 (blank_tiles 2 5, 0, 0)) = [[1, 1, 1, 1, 1], [0, 0, 0, 0, 0]]
   \<and> rle_decode [1, 0xFF, 5, 2, 3] 2 5 ! 0 ! 0 = 1
   \<and> rle_decode [1, 0xFF, 5, 2, 3] 2 5 ! 0 ! 4 = 1"
proof -
  have e: "expand_runs [1, 0xFF, 5, 2, 3] = [1, 1, 1, 1, 1, 2, 3]"
    by code_simp
  have w: "write_run 2 5 1 5 (blank_tiles 2 5, 0, 0) = ([[1, 1, 1, 1, 1], [0, 0, 0, 0, 0]], 1, 0)"
    by code_simp
  have h: "(1::int) \<le> 2 \<and> (5::int) \<le> 5" by simp
  from h decode_column_major [of 2 5 "[1, 0xFF, 5, 2, 3]" "[2, 3]"]
  have g: "\<forall>x z. int x < 2 \<and> int z < 5 \<longrightarrow>
      rle_decode [1, 0xFF, 5, 2, 3] 2 5 ! x ! z =
        (if x * nat 5 + z < length (expand_runs [1, 0xFF, 5, 2, 3])
         then expand_runs [1, 0xFF, 5, 2, 3] ! (x * nat 5 + z) else 0)"
    and r: "\<forall>k<5. rle_decode [1, 0xFF, 5, 2, 3] 2 5 ! 0 ! k = 1"
    by blast+
  from g [rule_format, of 1 0] g [rule_format, of 1 2] r [rule_format, of 0] r [rule_format, of 4] w
  show ?thesis
    unfolding e by simp
qed

text \<open>
  Claim C7. Decoding is truncation-tolerant: for every inner byte stream \<open>decode_tile_data\<close>
  returns a grid (the loop is total and has no failing branch), and every cell beyond the
  values the stream expands to holds 0. For a stream of complete runs followed by a
  truncated run (a value byte alone, or a value byte and the sentinel with no count), the
  truncated run fills one cell and all later cells hold 0.
\<close>

theorem decode_truncation_tolerant:
  assumes "unwrap blob = Some bs"
  shows "\<exists>tiles. decode_tile_data unwrap blob width depth = Inr tiles
      \<and> (\<forall>x z. int x < width \<and> int z < depth \<and> length (expand_runs bs) \<le> x * nat depth + z
             \<longrightarrow> tiles ! x ! z = 0)
      \<and> (\<forall>rs v. bs = complete_runs rs @ [v] \<or> bs = complete_runs rs @ [v, 0xFF] \<longrightarrow>
            (\<forall>x z. int x < width \<and> int z < depth \<longrightarrow>
               tiles ! x ! z =
                 (let k = x * nat depth + z
                  in if k < length (run_cells rs) then run_cells rs ! k
                     else if k = length (run_cells rs) then unat v else 0)))"
proof -
  let ?tiles = "rle_decode bs width depth"
  have ret: "decode_tile_data unwrap blob width depth = Inr ?tiles"
    using assms by (simp add: decode_tile_data_def)
  have rest: "?tiles ! x ! z = 0"
    if "int x < width \<and> int z < depth \<and> length (expand_runs bs) \<le> x * nat depth + z" for x z
    using that by (simp add: rle_decode_cells)
  have trunc: "?tiles ! x ! z =
                 (let k = x * nat depth + z
                  in if k < length (run_cells rs) then run_cells rs ! k
                     else if k = length (run_cells rs) then unat v else 0)"
    if bs: "bs = complete_runs rs @ [v] \<or> bs = complete_runs rs @ [v, 0xFF]"
      and xz: "int x < width \<and> int z < depth" for rs v x z
  proof -
    from bs have "expand_runs bs = run_cells rs @ [unat v]"
      by (auto simp: expand_complete_runs)
    with xz show ?thesis
      by (auto simp: rle_decode_cells nth_append Let_def)
  qed
  from ret rest trunc show ?thesis by blast
qed

theorem decode_truncation_tolerant_witness:
  "\<exists>tiles. decode_tile_data (\<lambda>s. Some [1, 0xFF, 2, 7, 0xFF]) ''blob'' 2 2 = Inr tiles
     \<and> tiles ! 0 ! 0 = 1 \<and> tiles ! 0 ! 1 = 1 \<and> tiles ! 1 ! 0 = 7 \<and> tiles ! 1 ! 1 = 0"
proof -
  let ?bs = "[1, 0xFF, 2, 7, 0xFF] :: byte list"
  have b: "?bs = complete_runs [(1, 2)] @ [7, 0xFF]"
    by simp
  have r: "run_cells [(1, 2)] = [1, 1]"
    by code_simp
  have e: "expand_runs ?bs = [1, 1, 7]"
    by code_simp
  have u: "(\<lambda>s::string. Some ?bs) ''blob'' = Some ?bs"
    by simp
  from decode_truncation_tolerant [OF u, where width = 2 and depth = 2]
  obtain tiles where t: "decode_tile_data (\<lambda>s. Some ?bs) ''blob'' 2 2 = Inr tiles"
    and z: "\<forall>x z. int x < 2 \<and> int z < 2 \<and> length (expand_runs ?bs) \<le> x * nat 2 + z
             \<longrightarrow> tiles ! x ! z = 0"
    and c0: "\<forall>rs v. ?bs = complete_runs rs @ [v] \<or> ?bs = complete_runs rs @ [v, 0xFF] \<longrightarrow>
            (\<forall>x z. int x < 2 \<and> int z < 2 \<longrightarrow>
               tiles ! x ! z =
                 (let k = x * nat 2 + z
                  in if k < length (run_cells rs) then run_cells rs ! k
                     else if k = length (run_cells rs) then unat v else 0))"
    by blast
  from c0 [rule_format, of "[(1, 2)]" 7] b
  have c: "\<And>x z. int x < 2 \<and> int z < 2 \<Longrightarrow>
               tiles ! x ! z =
                 (let k = x * nat 2 + z
                  in if k < length (run_cells [(1, 2)]) then run_cells [(1, 2)] ! k
                     else if k = length (run_cells [(1, 2)]) then unat (7 :: byte) else 0)"
    by blast
  have "tiles ! 0 ! 0 = 1" "tiles ! 0 ! 1 = 1" "tiles ! 1 ! 0 = 7"
    using c [of 0 0] c [of 0 1] c [of 1 0]
    unfolding r by simp_all
  moreover have "tiles ! 1 ! 1 = 0"
    using z [rule_format, of 1 1] unfolding e by simp
  ultimately show ?thesis using t by simp
qed

section \<open>Comparing distances with thresholds\<close>

lemma sqrt_less_iff: "0 \<le> c \<Longrightarrow> sqrt x < c \<longleftrightarrow> x < c\<^sup>2"
proof -
  assume c: "0 \<le> c"
  have "sqrt x < c \<longleftrightarrow> sqrt x < sqrt (c\<^sup>2)" using c by simp
  also have "\<dots> \<longleftrightarrow> x < c\<^sup>2" by (rule real_sqrt_less_iff)
  finally show ?thesis .
qed

lemma less_sqrt_iff: "0 \<le> c \<Longrightarrow> c < sqrt x \<longleftrightarrow> c\<^sup>2 < x"
proof -
  assume c: "0 \<le> c"
  have "c < sqrt x \<longleftrightarrow> sqrt (c\<^sup>2) < sqrt x" using c by simp
  also have "\<dots> \<longleftrightarrow> c\<^sup>2 < x" by (rule real_sqrt_less_iff)
  finally show ?thesis .
qed

lemmas dist_eval = distance_def sqrt_less_iff less_sqrt_iff

section \<open>Effects of one placement\<close>

lemma add_monster_effect:
  "placed_positions (add_monster g p d st) = placed_positions st @ [Pos p]"
  "map position (new_enemies (add_monster g p d st)) = map position (new_enemies st) @ [p]"
  "monsters_placed (add_monster g p d st) = monsters_placed st + 1"
  "new_props (add_monster g p d st) = new_props st"
  "props_placed (add_monster g p d st) = props_placed st"
  "groups_placed (add_monster g p d st) = groups_placed st"
  by (simp_all add: add_monster_def Let_def split: prod.splits)

lemma add_prop_effect:
  "placed_positions (add_prop g p d st) = placed_positions st @ [Pos p]"
  "new_enemies (add_prop g p d st) = new_enemies st"
  "props_placed (add_prop g p d st) = props_placed st + 1"
  "length (new_props (add_prop g p d st)) = length (new_props st) + 1"
  "monsters_placed (add_prop g p d st) = monsters_placed st"
  "groups_placed (add_prop g p d st) = groups_placed st"
  by (simp_all add: add_prop_def Let_def)

lemma clear_far:
  "is_position_clear p reg d = Inr True \<Longrightarrow> Pos q \<in> set reg \<Longrightarrow> \<not> distance p q < d"
  by (induction reg) (auto split: sum.splits if_splits)

lemma distance_commute: "distance p q = distance q p"
  by (simp add: distance_def power2_commute)

lemma apart_far:
  "apart d reg ps \<Longrightarrow> p \<in> set ps \<Longrightarrow> Pos q \<in> set reg \<Longrightarrow> \<not> distance p q < d"
proof (induction ps arbitrary: reg)
  case Nil
  then show ?case by simp
next
  case (Cons a ps)
  show ?case
  proof (cases "p = a")
    case True
    with Cons.prems have "is_position_clear p reg d = Inr True" by simp
    from clear_far [OF this Cons.prems(3)] show ?thesis .
  next
    case False
    with Cons.prems have "apart d (reg @ [Pos a]) ps" and "p \<in> set ps"
      and "Pos q \<in> set (reg @ [Pos a])" by simp_all
    then show ?thesis by (rule Cons.IH)
  qed
qed

lemma apart_sorted_wrt:
  "apart d reg ps \<Longrightarrow> sorted_wrt (\<lambda>p q. d \<le> distance p q) ps"
proof (induction ps arbitrary: reg)
  case Nil
  then show ?case by simp
next
  case (Cons p ps)
  then have t: "apart d (reg @ [Pos p]) ps" by simp
  have "d \<le> distance p q" if "q \<in> set ps" for q
    using apart_far [OF t that, of p] by (simp add: distance_commute not_less)
  with Cons.IH [OF t] show ?case by simp
qed

lemma apart_append:
  "apart d reg (ps @ qs) \<longleftrightarrow> apart d reg ps \<and> apart d (reg @ map Pos ps) qs"
  by (induction ps arbitrary: reg) auto

section \<open>Invariants of the three placement loops\<close>

text \<open>Whatever holds of the state before a loop and is kept by every accepted placement
  holds of the state the loop returns.\<close>

lemma place_monsters_rule:
  assumes "place_monsters g sp t fl st = Inr st'" and "P st"
    and "\<And>p s. P s \<Longrightarrow> p \<in> set fl \<Longrightarrow> monsters_placed s < t \<Longrightarrow> \<not> distance p sp < 15 \<Longrightarrow>
           is_position_clear p (placed_positions s) 5 = Inr True \<Longrightarrow>
           P (add_monster g p (distance p sp) s)"
  shows "P st'"
  using assms
proof (induction fl arbitrary: st)
  case Nil
  then show ?case by simp
next
  case (Cons p rest)
  have step: "\<And>q s. P s \<Longrightarrow> q \<in> set rest \<Longrightarrow> monsters_placed s < t \<Longrightarrow> \<not> distance q sp < 15 \<Longrightarrow>
           is_position_clear q (placed_positions s) 5 = Inr True \<Longrightarrow>
           P (add_monster g q (distance q sp) s)"
    using Cons.prems(3) by simp
  show ?case
  proof (cases "monsters_placed st \<ge> t")
    case True
    with Cons.prems show ?thesis by simp
  next
    case below: False
    show ?thesis
    proof (cases "distance p sp < 15")
      case True
      with below Cons.prems(1) have "place_monsters g sp t rest st = Inr st'" by simp
      from Cons.IH [OF this Cons.prems(2) step] show ?thesis .
    next
      case far: False
      show ?thesis
      proof (cases "is_position_clear p (placed_positions st) 5")
        case (Inl e)
        with below far Cons.prems(1) show ?thesis by simp
      next
        case (Inr clear)
        show ?thesis
        proof (cases clear)
          case False
          with Inr below far Cons.prems(1) have "place_monsters g sp t rest st = Inr st'"
            by simp
          from Cons.IH [OF this Cons.prems(2) step] show ?thesis .
        next
          case True
          let ?st = "add_monster g p (distance p sp) st"
          from True Inr below far Cons.prems(1)
          have run: "place_monsters g sp t rest ?st = Inr st'" by simp
          have "P ?st"
            using Cons.prems(2) below far True Inr by (intro Cons.prems(3)) simp_all
          from Cons.IH [OF run this step] show ?thesis .
        qed
      qed
    qed
  qed
qed

lemma place_props_rule:
  assumes "place_props g sp t fl st = Inr st'" and "P st"
    and "\<And>p s. P s \<Longrightarrow> p \<in> set fl \<Longrightarrow> props_placed s < t \<Longrightarrow>
           is_position_clear p (placed_positions s) 2 = Inr True \<Longrightarrow>
           P (add_prop g p (distance p sp) s)"
  shows "P st'"
  using assms
proof (induction fl arbitrary: st)
  case Nil
  then show ?case by simp
next
  case (Cons p rest)
  have step: "\<And>q s. P s \<Longrightarrow> q \<in> set rest \<Longrightarrow> props_placed s < t \<Longrightarrow>
           is_position_clear q (placed_positions s) 2 = Inr True \<Longrightarrow>
           P (add_prop g q (distance q sp) s)"
    using Cons.prems(3) by simp
  show ?case
  proof (cases "props_placed st \<ge> t")
    case True
    with Cons.prems show ?thesis by simp
  next
    case below: False
    show ?thesis
    proof (cases "is_position_clear p (placed_positions st) 2")
      case (Inl e)
      with below Cons.prems(1) show ?thesis by simp
    next
      case (Inr clear)
      show ?thesis
      proof (cases clear)
        case False
        with Inr below Cons.prems(1) have "place_props g sp t rest st = Inr st'"
          by simp
        from Cons.IH [OF this Cons.prems(2) step] show ?thesis .
      next
        case True
        let ?st = "add_prop g p (distance p sp) st"
        from True Inr below Cons.prems(1)
        have run: "place_props g sp t rest ?st = Inr st'" by simp
        have "P ?st"
          using Cons.prems(2) below True Inr by (intro Cons.prems(3)) simp_all
        from Cons.IH [OF run this step] show ?thesis .
      qed
    qed
  qed
qed

lemma place_groups_rule:
  assumes "place_groups g tiles width depth sp t anchors st = Inr st'" and "P st"
    and "\<And>p s. P s \<Longrightarrow> p \<in> set anchors \<Longrightarrow> groups_placed s < t \<Longrightarrow> \<not> distance p sp < 40 \<Longrightarrow>
           is_position_clear p (placed_positions s) 10 = Inr True \<Longrightarrow>
           P (add_group g tiles width depth p (distance p sp) s)"
  shows "P st'"
  using assms
proof (induction anchors arbitrary: st)
  case Nil
  then show ?case by simp
next
  case (Cons p rest)
  have step: "\<And>q s. P s \<Longrightarrow> q \<in> set rest \<Longrightarrow> groups_placed s < t \<Longrightarrow> \<not> distance q sp < 40 \<Longrightarrow>
           is_position_clear q (placed_positions s) 10 = Inr True \<Longrightarrow>
           P (add_group g tiles width depth q (distance q sp) s)"
    using Cons.prems(3) by simp
  show ?case
  proof (cases "groups_placed st \<ge> t")
    case True
    with Cons.prems show ?thesis by simp
  next
    case below: False
    show ?thesis
    proof (cases "distance p sp < 40")
      case True
      with below Cons.prems(1)
      have "place_groups g tiles width depth sp t rest st = Inr st'" by simp
      from Cons.IH [OF this Cons.prems(2) step] show ?thesis .
    next
      case far: False
      show ?thesis
      proof (cases "is_position_clear p (placed_positions st) 10")
        case (Inl e)
        with below far Cons.prems(1) show ?thesis by simp
      next
        case (Inr clear)
        show ?thesis
        proof (cases clear)
          case False
          with Inr below far Cons.prems(1)
          have "place_groups g tiles width depth sp t rest st = Inr st'" by simp
          from Cons.IH [OF this Cons.prems(2) step] show ?thesis .
        next
          case True
          let ?st = "add_group g tiles width depth p (distance p sp) st"
          from True Inr below far Cons.prems(1)
          have run: "place_groups g tiles width depth sp t rest ?st = Inr st'" by simp
          have "P ?st"
            using Cons.prems(2) below far True Inr by (intro Cons.prems(3)) simp_all
          from Cons.IH [OF run this step] show ?thesis .
        qed
      qed
    qed
  qed
qed

lemma place_monsters_inv:
  assumes "place_monsters g sp t fl st = Inr st'"
  shows "\<exists>ps. placed_positions st' = placed_positions st @ map Pos ps
           \<and> map position (new_enemies st') = map position (new_enemies st) @ ps
           \<and> monsters_placed st' = monsters_placed st + length ps
           \<and> length ps \<le> t - monsters_placed st
           \<and> set ps \<subseteq> set fl
           \<and> apart 5 (placed_positions st) ps
           \<and> (\<forall>p \<in> set ps. \<not> distance p sp < 15)
           \<and> new_props st' = new_props st
           \<and> props_placed st' = props_placed st
           \<and> groups_placed st' = groups_placed st"
    (is "?P st'")
  using assms
proof (rule place_monsters_rule)
  have "placed_positions st = placed_positions st @ map Pos []
           \<and> map position (new_enemies st) = map position (new_enemies st) @ []
           \<and> monsters_placed st = monsters_placed st + length ([] :: pos list)
           \<and> length ([] :: pos list) \<le> t - monsters_placed st
           \<and> set [] \<subseteq> set fl
           \<and> apart 5 (placed_positions st) []
           \<and> (\<forall>p \<in> set []. \<not> distance p sp < 15)"
    by simp
  then show "?P st" by blast
next
  fix p s
  assume P: "?P s" and p: "p \<in> set fl" and below: "monsters_placed s < t"
    and far: "\<not> distance p sp < 15"
    and clear: "is_position_clear p (placed_positions s) 5 = Inr True"
  from P obtain ps where
    ps: "placed_positions s = placed_positions st @ map Pos ps"
      "map position (new_enemies s) = map position (new_enemies st) @ ps"
      "monsters_placed s = monsters_placed st + length ps"
      "set ps \<subseteq> set fl"
      "apart 5 (placed_positions st) ps"
      "\<forall>p \<in> set ps. \<not> distance p sp < 15"
      "new_props s = new_props st"
      "props_placed s = props_placed st"
      "groups_placed s = groups_placed st"
    by blast
  let ?s = "add_monster g p (distance p sp) s"
  have "placed_positions ?s = placed_positions st @ map Pos (ps @ [p])"
    and "map position (new_enemies ?s) = map position (new_enemies st) @ (ps @ [p])"
    and "monsters_placed ?s = monsters_placed st + length (ps @ [p])"
    and "length (ps @ [p]) \<le> t - monsters_placed st"
    and "set (ps @ [p]) \<subseteq> set fl"
    and "apart 5 (placed_positions st) (ps @ [p])"
    and "\<forall>q \<in> set (ps @ [p]). \<not> distance q sp < 15"
    and "new_props ?s = new_props st"
    and "props_placed ?s = props_placed st"
    and "groups_placed ?s = groups_placed st"
    using ps p below far clear by (auto simp: add_monster_effect apart_append)
  then show "?P ?s" by blast
qed

lemma place_props_inv:
  assumes "place_props g sp t fl st = Inr st'"
  shows "\<exists>ps. placed_positions st' = placed_positions st @ map Pos ps
           \<and> length (new_props st') = length (new_props st) + length ps
           \<and> props_placed st' = props_placed st + length ps
           \<and> length ps \<le> t - props_placed st
           \<and> set ps \<subseteq> set fl
           \<and> apart 2 (placed_positions st) ps
           \<and> new_enemies st' = new_enemies st
           \<and> monsters_placed st' = monsters_placed st
           \<and> groups_placed st' = groups_placed st"
    (is "?P st'")
  using assms
proof (rule place_props_rule)
  have "placed_positions st = placed_positions st @ map Pos []
           \<and> length (new_props st) = length (new_props st) + length ([] :: pos list)
           \<and> props_placed st = props_placed st + length ([] :: pos list)
           \<and> length ([] :: pos list) \<le> t - props_placed st
           \<and> set [] \<subseteq> set fl
           \<and> apart 2 (placed_positions st) []"
    by simp
  then show "?P st" by blast
next
  fix p s
  assume P: "?P s" and p: "p \<in> set fl" and below: "props_placed s < t"
    and clear: "is_position_clear p (placed_positions s) 2 = Inr True"
  from P obtain ps where
    ps: "placed_positions s = placed_positions st @ map Pos ps"
      "length (new_props s) = length (new_props st) + length ps"
      "props_placed s = props_placed st + length ps"
      "set ps \<subseteq> set fl"
      "apart 2 (placed_positions st) ps"
      "new_enemies s = new_enemies st"
      "monsters_placed s = monsters_placed st"
      "groups_placed s = groups_placed st"
    by blast
  let ?s = "add_prop g p (distance p sp) s"
  have "placed_positions ?s = placed_positions st @ map Pos (ps @ [p])"
    and "length (new_props ?s) = length (new_props st) + length (ps @ [p])"
    and "props_placed ?s = props_placed st + length (ps @ [p])"
    and "length (ps @ [p]) \<le> t - props_placed st"
    and "set (ps @ [p]) \<subseteq> set fl"
    and "apart 2 (placed_positions st) (ps @ [p])"
    and "new_enemies ?s = new_enemies st"
    and "monsters_placed ?s = monsters_placed st"
    and "groups_placed ?s = groups_placed st"
    using ps p below clear by (auto simp: add_prop_effect apart_append)
  then show "?P ?s" by blast
qed

lemma tier_bounds: "1 \<le> get_tier_for_distance d \<and> get_tier_for_distance d \<le> 5"
  by (simp add: get_tier_for_distance_def)

lemma add_member_effect:
  "\<exists>ms. new_enemies (add_member g tiles width depth p tier pool st) = new_enemies st @ ms
      \<and> length ms \<le> 1
      \<and> (\<forall>m \<in> set ms. cluster_member tiles width depth (max 1 tier) m)"
  "placed_positions (add_member g tiles width depth p tier pool st) = placed_positions st"
  "new_props (add_member g tiles width depth p tier pool st) = new_props st"
  "monsters_placed (add_member g tiles width depth p tier pool st) = monsters_placed st"
  "props_placed (add_member g tiles width depth p tier pool st) = props_placed st"
  "groups_placed (add_member g tiles width depth p tier pool st) = groups_placed st"
  by (simp_all add: add_member_def Let_def cluster_member_def is_floor_def)

lemma add_members_frame:
  "placed_positions (add_members g tiles width depth p tier pool n st) = placed_positions st"
  "new_props (add_members g tiles width depth p tier pool n st) = new_props st"
  "monsters_placed (add_members g tiles width depth p tier pool n st) = monsters_placed st"
  "props_placed (add_members g tiles width depth p tier pool n st) = props_placed st"
  "groups_placed (add_members g tiles width depth p tier pool n st) = groups_placed st"
  by (induction n arbitrary: st) (simp_all add: add_member_effect)

lemma add_members_new:
  "\<exists>ms. new_enemies (add_members g tiles width depth p tier pool n st) = new_enemies st @ ms
      \<and> length ms \<le> n
      \<and> (\<forall>m \<in> set ms. cluster_member tiles width depth (max 1 tier) m)"
proof (induction n arbitrary: st)
  case 0
  show ?case by simp
next
  case (Suc n)
  let ?s = "add_member g tiles width depth p tier pool st"
  from add_member_effect(1) [of g tiles width depth p tier pool st]
  obtain ms where ms: "new_enemies ?s = new_enemies st @ ms" "length ms \<le> 1"
    "\<forall>m \<in> set ms. cluster_member tiles width depth (max 1 tier) m"
    by blast
  from Suc.IH [of ?s]
  obtain ns where ns: "new_enemies (add_members g tiles width depth p tier pool n ?s)
      = new_enemies ?s @ ns" "length ns \<le> n"
    "\<forall>m \<in> set ns. cluster_member tiles width depth (max 1 tier) m"
    by blast
  have "new_enemies (add_members g tiles width depth p tier pool (Suc n) st)
          = new_enemies st @ (ms @ ns)"
    and "length (ms @ ns) \<le> Suc n"
    and "\<forall>m \<in> set (ms @ ns). cluster_member tiles width depth (max 1 tier) m"
    using ms ns by auto
  then show ?case by blast
qed

lemma add_group_effect:
  "\<exists>ms. new_enemies (add_group g tiles width depth p d st) = new_enemies st @ ms
      \<and> length ms \<le> 5
      \<and> (\<forall>m \<in> set ms. cluster_member tiles width depth (get_tier_for_distance d) m)"
  "placed_positions (add_group g tiles width depth p d st) = placed_positions st @ [Pos p]"
  "new_props (add_group g tiles width depth p d st) = new_props st"
  "monsters_placed (add_group g tiles width depth p d st) = monsters_placed st"
  "props_placed (add_group g tiles width depth p d st) = props_placed st"
  "groups_placed (add_group g tiles width depth p d st) = groups_placed st + 1"
proof -
  let ?tier = "get_tier_for_distance d"
  let ?pool = "if ?tier \<le> 2 then TIER1_MONSTERS @ TIER2_MONSTERS
             else if ?tier \<le> 3 then TIER2_MONSTERS @ TIER3_MONSTERS
             else TIER3_MONSTERS @ TIER4_MONSTERS"
  let ?n = "nat (randint g (draws st) 3 5)"
  let ?st = "st\<lparr>draws := draws st + 1\<rparr>"
  have n: "?n \<le> 5" by (simp add: randint_def randbelow_def)
  have t: "max 1 ?tier = ?tier" using tier_bounds [of d] by simp
  from add_members_new [of g tiles width depth p ?tier ?pool ?n ?st]
  obtain ms where ms: "new_enemies (add_members g tiles width depth p ?tier ?pool ?n ?st)
        = new_enemies st @ ms" "length ms \<le> ?n"
      "\<forall>m \<in> set ms. cluster_member tiles width depth ?tier m"
    unfolding t by auto
  have "new_enemies (add_group g tiles width depth p d st) = new_enemies st @ ms"
    and "length ms \<le> 5"
    and "\<forall>m \<in> set ms. cluster_member tiles width depth ?tier m"
    using ms n by (simp_all add: add_group_def Let_def)
  then show "\<exists>ms. new_enemies (add_group g tiles width depth p d st) = new_enemies st @ ms
      \<and> length ms \<le> 5
      \<and> (\<forall>m \<in> set ms. cluster_member tiles width depth (get_tier_for_distance d) m)"
    by blast
qed (simp_all add: add_group_def Let_def add_members_frame)

lemma place_groups_inv:
  assumes "place_groups g tiles width depth sp t anchors st = Inr st'"
  shows "\<exists>ps ms. placed_positions st' = placed_positions st @ map Pos ps
           \<and> groups_placed st' = groups_placed st + length ps
           \<and> length ps \<le> t - groups_placed st
           \<and> set ps \<subseteq> set anchors
           \<and> new_enemies st' = new_enemies st @ ms
           \<and> length ms \<le> 5 * length ps
           \<and> (\<forall>m \<in> set ms. \<exists>a \<in> set anchors.
                  cluster_member tiles width depth (get_tier_for_distance (distance a sp)) m)
           \<and> new_props st' = new_props st
           \<and> monsters_placed st' = monsters_placed st
           \<and> props_placed st' = props_placed st"
    (is "?P st'")
  using assms
proof (rule place_groups_rule)
  have "placed_positions st = placed_positions st @ map Pos []
           \<and> groups_placed st = groups_placed st + length ([] :: pos list)
           \<and> length ([] :: pos list) \<le> t - groups_placed st
           \<and> set [] \<subseteq> set anchors
           \<and> new_enemies st = new_enemies st @ []
           \<and> length ([] :: enemy list) \<le> 5 * length ([] :: pos list)
           \<and> (\<forall>m \<in> set []. \<exists>a \<in> set anchors.
                  cluster_member tiles width depth (get_tier_for_distance (distance a sp)) m)"
    by simp
  then show "?P st" by blast
next
  fix p s
  assume P: "?P s" and p: "p \<in> set anchors" and below: "groups_placed s < t"
  from P obtain ps ms where
    ps: "placed_positions s = placed_positions st @ map Pos ps"
      "groups_placed s = groups_placed st + length ps"
      "set ps \<subseteq> set anchors"
      "new_enemies s = new_enemies st @ ms"
      "length ms \<le> 5 * length ps"
      "\<forall>m \<in> set ms. \<exists>a \<in> set anchors.
          cluster_member tiles width depth (get_tier_for_distance (distance a sp)) m"
      "new_props s = new_props st"
      "monsters_placed s = monsters_placed st"
      "props_placed s = props_placed st"
    by blast
  let ?s = "add_group g tiles width depth p (distance p sp) s"
  from add_group_effect(1) [of g tiles width depth p "distance p sp" s]
  obtain ns where ns: "new_enemies ?s = new_enemies s @ ns" "length ns \<le> 5"
    "\<forall>m \<in> set ns. cluster_member tiles width depth (get_tier_for_distance (distance p sp)) m"
    by blast
  have "placed_positions ?s = placed_positions st @ map Pos (ps @ [p])"
    and "groups_placed ?s = groups_placed st + length (ps @ [p])"
    and "length (ps @ [p]) \<le> t - groups_placed st"
    and "set (ps @ [p]) \<subseteq> set anchors"
    and "new_enemies ?s = new_enemies st @ (ms @ ns)"
    and "length (ms @ ns) \<le> 5 * length (ps @ [p])"
    and "new_props ?s = new_props st"
    and "monsters_placed ?s = monsters_placed st"
    and "props_placed ?s = props_placed st"
    using ps ns p below by (simp_all add: add_group_effect)
  moreover have "\<forall>m \<in> set (ms @ ns). \<exists>a \<in> set anchors.
          cluster_member tiles width depth (get_tier_for_distance (distance a sp)) m"
    using ps(6) ns(3) p by auto
  ultimately show "?P ?s" by blast
qed

lemma add_prop_new:
  "\<exists>pr. new_props (add_prop g p d st) = new_props st @ [pr] \<and> prop_on g pr p"
  by (auto simp: add_prop_def Let_def prop_on_def)

lemma place_props_cells:
  assumes "place_props g sp t fl st = Inr st'"
  shows "\<exists>qs cs. new_props st' = new_props st @ qs \<and> list_all2 (prop_on g) qs cs
            \<and> set cs \<subseteq> set fl"
    (is "?P st'")
  using assms
proof (rule place_props_rule)
  have "new_props st = new_props st @ [] \<and> list_all2 (prop_on g) [] [] \<and> set [] \<subseteq> set fl"
    by simp
  then show "?P st" by blast
next
  fix p s
  assume P: "?P s" and p: "p \<in> set fl"
  from P obtain qs cs where qs: "new_props s = new_props st @ qs"
    "list_all2 (prop_on g) qs cs" "set cs \<subseteq> set fl"
    by blast
  from add_prop_new [of g p "distance p sp" s]
  obtain pr where pr: "new_props (add_prop g p (distance p sp) s) = new_props s @ [pr]"
    "prop_on g pr p"
    by blast
  have "new_props (add_prop g p (distance p sp) s) = new_props st @ (qs @ [pr])"
    and "list_all2 (prop_on g) (qs @ [pr]) (cs @ [p])"
    and "set (cs @ [p]) \<subseteq> set fl"
    using qs pr p by (simp_all add: list_all2_appendI)
  then show "?P (add_prop g p (distance p sp) s)" by blast
qed

lemma entry_positions_Pos [simp]: "entry_positions (map Pos ps) = ps"
  by (induction ps) simp_all

lemma placed_between_append:
  "placed_positions st' = placed_positions st @ map Pos ps \<Longrightarrow> placed_between st st' = ps"
  by (simp add: placed_between_def)

lemma find_floor_iff:
  "p \<in> set (find_floor_positions tiles width depth) \<longleftrightarrow> is_floor tiles width depth p"
proof -
  obtain x z where p: "p = (x, z)" by (cases p) auto
  have "(x, z) \<in> set (find_floor_positions tiles width depth)
      \<longleftrightarrow> (\<exists>a < nat width. \<exists>b < nat depth. tiles ! a ! b = 1 \<and> x = int a \<and> z = int b)"
    by (auto simp: find_floor_positions_def split: if_splits)
  also have "\<dots> \<longleftrightarrow> is_floor tiles width depth (x, z)"
  proof
    assume "\<exists>a < nat width. \<exists>b < nat depth. tiles ! a ! b = 1 \<and> x = int a \<and> z = int b"
    then show "is_floor tiles width depth (x, z)"
      by (auto simp: is_floor_def)
  next
    assume f: "is_floor tiles width depth (x, z)"
    then have "nat x < nat width" "nat z < nat depth" "tiles ! nat x ! nat z = 1"
      "x = int (nat x)" "z = int (nat z)"
      by (auto simp: is_floor_def)
    then show "\<exists>a < nat width. \<exists>b < nat depth. tiles ! a ! b = 1 \<and> x = int a \<and> z = int b"
      by blast
  qed
  finally show ?thesis using p by simp
qed

lemma set_stride: "set (stride n xs) \<subseteq> set xs"
proof (induction n xs rule: stride.induct)
  case (1 n)
  show ?case by simp
next
  case (2 n x xs)
  have "set (drop (n - 1) xs) \<subseteq> set xs" by (rule set_drop_subset)
  with 2 show ?case by auto
qed

lemmas placement_eval = dist_eval get_tier_for_distance_def start_state_def add_monster_def
  add_prop_def add_group_def add_member_def Let_def choice_def randbelow_def uniform_def
  randint_def py_int_def
  TIER1_MONSTERS_def TIER2_MONSTERS_def TIER3_MONSTERS_def TIER4_MONSTERS_def TIER5_MONSTERS_def
  BOSSES_def DUNGEON_PROPS_def TREASURE_PROPS_def SPOOKY_PROPS_def NATURE_PROPS_def CAMP_PROPS_def

text \<open>
  Claim C2. For any register the loops start from, any targets and any floor list: the
  positions of the monsters that Phase A places are pairwise at Euclidean distance at
  least 5, and the positions that Phase B registers, one per prop it emits, are pairwise
  at distance at least 2. (\<open>populate_map\<close> runs the loops from \<open>initial_register\<close>.)
\<close>

theorem spacing_invariant:
  assumes "place_monsters g spawn_pos target_monsters fl (start_state reg) = Inr st1"
    and "place_props g spawn_pos target_props fl st1 = Inr st2"
  shows "(\<forall>i j. i < j \<and> j < length (new_enemies st1) \<longrightarrow>
            5 \<le> distance (position (new_enemies st1 ! i)) (position (new_enemies st1 ! j)))
       \<and> length (placed_between st1 st2) = length (new_props st2)
       \<and> (\<forall>i j. i < j \<and> j < length (placed_between st1 st2) \<longrightarrow>
            2 \<le> distance (placed_between st1 st2 ! i) (placed_between st1 st2 ! j))"
proof -
  from place_monsters_inv [OF assms(1)] obtain ms where
    ms: "map position (new_enemies st1) = ms" "apart 5 reg ms" "new_props st1 = []"
    by (auto simp: start_state_def)
  from place_props_inv [OF assms(2)] obtain ps where
    ps: "placed_positions st2 = placed_positions st1 @ map Pos ps"
      "length (new_props st2) = length (new_props st1) + length ps"
      "apart 2 (placed_positions st1) ps"
    by blast
  have a: "5 \<le> distance (position (new_enemies st1 ! i)) (position (new_enemies st1 ! j))"
    if "i < j \<and> j < length (new_enemies st1)" for i j
  proof -
    from ms(2) have "sorted_wrt (\<lambda>p q. 5 \<le> distance p q) ms" by (rule apart_sorted_wrt)
    moreover from that ms(1) have "i < j" "j < length ms" by auto
    ultimately have "5 \<le> distance (ms ! i) (ms ! j)" by (simp add: sorted_wrt_iff_nth_less)
    moreover have "ms ! i = position (new_enemies st1 ! i)" "ms ! j = position (new_enemies st1 ! j)"
      using that ms(1) by (auto simp: nth_map [symmetric] simp del: nth_map)
    ultimately show ?thesis by simp
  qed
  have pb: "placed_between st1 st2 = ps" using ps(1) by (rule placed_between_append)
  have b: "2 \<le> distance (ps ! i) (ps ! j)" if "i < j \<and> j < length ps" for i j
  proof -
    from ps(3) have "sorted_wrt (\<lambda>p q. 2 \<le> distance p q) ps" by (rule apart_sorted_wrt)
    with that show ?thesis by (simp add: sorted_wrt_iff_nth_less)
  qed
  from a b ps(2) ms(3) show ?thesis unfolding pb by simp
qed

theorem spacing_invariant_witness:
  "\<exists>st1 st2.
     place_monsters \<lparr>shuffle = (\<lambda>xs. xs), bits = (\<lambda>k. k), unit01 = (\<lambda>k. 1 / 2)\<rparr> (0, 0) 2
       [(3, 0), (20, 0), (22, 0), (30, 0), (50, 50)] (start_state [Pos (0, 0)]) = Inr st1
     \<and> place_props \<lparr>shuffle = (\<lambda>xs. xs), bits = (\<lambda>k. k), unit01 = (\<lambda>k. 1 / 2)\<rparr> (0, 0) 2
       [(3, 0), (20, 0), (22, 0), (30, 0), (50, 50)] st1 = Inr st2
     \<and> map position (new_enemies st1) = [(20, 0), (30, 0)]
     \<and> 5 \<le> distance (position (new_enemies st1 ! 0)) (position (new_enemies st1 ! 1))
     \<and> placed_between st1 st2 = [(3, 0), (22, 0)]
     \<and> 2 \<le> distance (placed_between st1 st2 ! 0) (placed_between st1 st2 ! 1)"
proof -
  let ?g = "\<lparr>shuffle = (\<lambda>xs. xs), bits = (\<lambda>k. k), unit01 = (\<lambda>k. 1 / 2)\<rparr>"
  let ?fl = "[(3, 0), (20, 0), (22, 0), (30, 0), (50, 50)] :: pos list"
  obtain st1 where e1: "place_monsters ?g (0, 0) 2 ?fl (start_state [Pos (0, 0)]) = Inr st1"
    and m1: "map position (new_enemies st1) = [(20, 0), (30, 0)]"
    and r1: "placed_positions st1 = [Pos (0, 0), Pos (20, 0), Pos (30, 0)]"
    and p1: "props_placed st1 = 0"
    by (simp add: placement_eval)
  obtain st2 where e2: "place_props ?g (0, 0) 2 ?fl st1 = Inr st2"
    and r2: "placed_positions st2 = placed_positions st1 @ map Pos [(3, 0), (22, 0)]"
    by (simp add: placement_eval r1 p1 add_prop_effect)
  have pb: "placed_between st1 st2 = [(3, 0), (22, 0)]"
    using r2 by (rule placed_between_append)
  have l: "length (new_enemies st1) = 2"
    using arg_cong [OF m1, of length] by simp
  from spacing_invariant [OF e1 e2] l pb e1 e2 m1 show ?thesis
    by auto
qed

lemma run_phases_Inr:
  assumes "run_phases g tiles width depth spawn_pos fl reg = Inr st"
  obtains st1 st2 where
    "place_monsters g spawn_pos (length fl div 100) fl (start_state reg) = Inr st1"
    "place_props g spawn_pos (length fl div 50) fl st1 = Inr st2"
    "place_groups g tiles width depth spawn_pos (min 20 (length fl div 500)) (stride 50 fl) st2
       = Inr st"
  using assms by (auto simp: run_phases_def split: sum.splits)

text \<open>
  Claim C4. When the three loops return, the Phase-A counter is at most
  \<open>floor(floorCount / 100)\<close>, the Phase-B counter at most \<open>floor(floorCount / 50)\<close> and
  the Phase-C counter at most \<open>min(20, floor(floorCount / 500))\<close>, where \<open>floorCount\<close>
  is the length of the floor list. The counters count what was placed: one prop record
  and one register entry per count, one monster per Phase-A count, and at most five
  cluster members per group.
\<close>

theorem density_bounds:
  assumes "run_phases g tiles width depth spawn_pos fl reg = Inr st"
  shows "monsters_placed st \<le> length fl div 100
       \<and> props_placed st \<le> length fl div 50
       \<and> groups_placed st \<le> min 20 (length fl div 500)
       \<and> length (new_props st) = props_placed st
       \<and> length (placed_positions st)
           = length reg + monsters_placed st + props_placed st + groups_placed st
       \<and> monsters_placed st \<le> length (new_enemies st)
       \<and> length (new_enemies st) \<le> monsters_placed st + 5 * groups_placed st"
proof -
  from assms obtain st1 st2 where
    a: "place_monsters g spawn_pos (length fl div 100) fl (start_state reg) = Inr st1"
    and b: "place_props g spawn_pos (length fl div 50) fl st1 = Inr st2"
    and c: "place_groups g tiles width depth spawn_pos (min 20 (length fl div 500))
              (stride 50 fl) st2 = Inr st"
    by (rule run_phases_Inr)
  have ms: "placed_positions st1 = reg @ map Pos (map position (new_enemies st1))"
      "monsters_placed st1 = length (new_enemies st1)"
      "length (new_enemies st1) \<le> length fl div 100"
      "new_props st1 = []" "props_placed st1 = 0" "groups_placed st1 = 0"
    using place_monsters_inv [OF a] by (auto simp: start_state_def)
  from place_props_inv [OF b] obtain ps where
    ps: "placed_positions st2 = placed_positions st1 @ map Pos ps"
      "length (new_props st2) = length (new_props st1) + length ps"
      "props_placed st2 = props_placed st1 + length ps"
      "length ps \<le> length fl div 50 - props_placed st1"
      "new_enemies st2 = new_enemies st1"
      "monsters_placed st2 = monsters_placed st1"
      "groups_placed st2 = groups_placed st1"
    by blast
  from place_groups_inv [OF c] obtain as cs where
    as: "placed_positions st = placed_positions st2 @ map Pos as"
      "groups_placed st = groups_placed st2 + length as"
      "length as \<le> min 20 (length fl div 500) - groups_placed st2"
      "new_enemies st = new_enemies st2 @ cs"
      "length cs \<le> 5 * length as"
      "new_props st = new_props st2"
      "monsters_placed st = monsters_placed st2"
      "props_placed st = props_placed st2"
    by blast
  have "monsters_placed st \<le> length fl div 100"
    using ms ps as by simp
  moreover have "props_placed st \<le> length fl div 50"
    using ms ps as by simp
  moreover have "groups_placed st \<le> min 20 (length fl div 500)"
    using ms ps as by simp
  moreover have "length (new_props st) = props_placed st"
    using ms ps as by simp
  moreover have "length (placed_positions st)
           = length reg + monsters_placed st + props_placed st + groups_placed st"
    using ms ps as by simp
  moreover have "monsters_placed st \<le> length (new_enemies st)"
    using ms ps as by simp
  moreover have "length (new_enemies st) \<le> monsters_placed st + 5 * groups_placed st"
    using ms ps as by simp
  ultimately show ?thesis by blast
qed

theorem density_bounds_witness:
  "\<exists>st. run_phases \<lparr>shuffle = (\<lambda>xs. xs), bits = (\<lambda>k. k), unit01 = (\<lambda>k. 1 / 2)\<rparr>
            (replicate 60 (replicate 60 1)) 60 60 (0, 0)
            ((20, 0) # (22, 0) # (30, 0) # (3, 0) # replicate 96 (50, 50)) [Pos (0, 0)] = Inr st
      \<and> monsters_placed st = 1 \<and> props_placed st = 2 \<and> groups_placed st = 0
      \<and> monsters_placed st \<le> 100 div 100 \<and> props_placed st \<le> 100 div 50
      \<and> groups_placed st \<le> min 20 (100 div 500)
      \<and> length (new_props st) = 2 \<and> length (new_enemies st) = 1"
proof -
  let ?g = "\<lparr>shuffle = (\<lambda>xs. xs), bits = (\<lambda>k. k), unit01 = (\<lambda>k. 1 / 2)\<rparr>"
  let ?fl = "(20, 0) # (22, 0) # (30, 0) # (3, 0) # replicate 96 (50, 50) :: pos list"
  have len: "length ?fl = 100" by simp
  obtain st1 where e1: "place_monsters ?g (0, 0) (length ?fl div 100) ?fl (start_state [Pos (0, 0)])
      = Inr st1"
    and s1: "placed_positions st1 = [Pos (0, 0), Pos (20, 0)]" "props_placed st1 = 0"
      "monsters_placed st1 = 1" "groups_placed st1 = 0"
    by (simp add: placement_eval)
  obtain st2 where e2: "place_props ?g (0, 0) (length ?fl div 50) ?fl st1 = Inr st2"
    and s2: "props_placed st2 = 2" "monsters_placed st2 = 1" "groups_placed st2 = 0"
    by (simp add: placement_eval s1 add_prop_effect)
  have e3: "place_groups ?g (replicate 60 (replicate 60 1)) 60 60 (0, 0)
      (min 20 (length ?fl div 500)) (stride 50 ?fl) st2 = Inr st2"
    by (simp add: s2)
  have r: "run_phases ?g (replicate 60 (replicate 60 1)) 60 60 (0, 0) ?fl [Pos (0, 0)] = Inr st2"
    unfolding run_phases_def e1 sum.case e2 by (rule e3)
  from density_bounds [OF r] r s2 show ?thesis
    unfolding len by auto
qed

section \<open>Where generated entities stand\<close>

lemma permutation_of_set: "permutation_of ys xs \<Longrightarrow> set ys = set xs"
proof -
  assume p: "permutation_of ys xs"
  have "x \<in> set ys \<longleftrightarrow> x \<in> set xs" for x
  proof -
    have "x \<in> set ys \<longleftrightarrow> count_list ys x \<noteq> 0" by (simp add: count_list_0_iff)
    also have "\<dots> \<longleftrightarrow> count_list xs x \<noteq> 0" using p by (simp add: permutation_of_def)
    also have "\<dots> \<longleftrightarrow> x \<in> set xs" by (simp add: count_list_0_iff)
    finally show ?thesis .
  qed
  then show ?thesis by blast
qed

lemma permutation_of_length: "permutation_of ys xs \<Longrightarrow> length ys = length xs"
proof -
  assume p: "permutation_of ys xs"
  then have s: "set ys = set xs" by (rule permutation_of_set)
  have "length ys = sum (count_list ys) (set ys)"
    by (simp add: sum_count_set)
  also have "\<dots> = sum (count_list xs) (set xs)"
    using p s by (simp add: permutation_of_def)
  also have "\<dots> = length xs"
    by (simp add: sum_count_set)
  finally show ?thesis .
qed

lemma add_members_unfold:
  "add_members g tiles width depth p tier pool n st =
     (if n = 0 then st
      else add_members g tiles width depth p tier pool (n - 1)
             (add_member g tiles width depth p tier pool st))"
  by (cases n) simp_all

lemma add_member_discard:
  "\<not> is_floor tiles width depth (member_candidate g p (draws st)) \<Longrightarrow>
     new_enemies (add_member g tiles width depth p tier pool st) = new_enemies st"
  by (auto simp: add_member_def Let_def is_floor_def member_candidate_def)

lemma add_member_own:
  "\<exists>ms. new_enemies (add_member g tiles width depth p tier pool st) = new_enemies st @ ms
      \<and> length ms \<le> 1
      \<and> (\<forall>m \<in> set ms. is_floor tiles width depth (position m) \<and> \<not> isBoss m
             \<and> level m = max 1 tier \<and> (\<exists>k. position m = member_candidate g p k))"
proof (cases "is_floor tiles width depth (member_candidate g p (draws st))")
  case False
  then have "new_enemies (add_member g tiles width depth p tier pool st) = new_enemies st @ []"
    by (simp add: add_member_discard)
  then show ?thesis by fastforce
next
  case True
  let ?m = "\<lparr>e_type = choice g (draws st + 2) pool, roomId = -1,
             position = member_candidate g p (draws st), level = max 1 tier, isBoss = False,
             rotationY = uniform g (draws st + 3) 0 6.28\<rparr>"
  from True have "new_enemies (add_member g tiles width depth p tier pool st)
      = new_enemies st @ [?m]"
    by (auto simp: add_member_def Let_def is_floor_def member_candidate_def)
  moreover have "is_floor tiles width depth (position ?m) \<and> \<not> isBoss ?m
             \<and> level ?m = max 1 tier \<and> (\<exists>k. position ?m = member_candidate g p k)"
    using True by auto
  ultimately show ?thesis by fastforce
qed

lemma add_members_own:
  "\<exists>ms. new_enemies (add_members g tiles width depth p tier pool n st) = new_enemies st @ ms
      \<and> length ms \<le> n
      \<and> (\<forall>m \<in> set ms. is_floor tiles width depth (position m) \<and> \<not> isBoss m
             \<and> level m = max 1 tier \<and> (\<exists>k. position m = member_candidate g p k))"
    (is "\<exists>ms. ?Q n st ms")
proof (induction n arbitrary: st)
  case 0
  show ?case by simp
next
  case (Suc n)
  let ?s = "add_member g tiles width depth p tier pool st"
  from add_member_own [of g tiles width depth p tier pool st]
  obtain ms where ms: "new_enemies ?s = new_enemies st @ ms" "length ms \<le> 1"
    "\<forall>m \<in> set ms. is_floor tiles width depth (position m) \<and> \<not> isBoss m
             \<and> level m = max 1 tier \<and> (\<exists>k. position m = member_candidate g p k)"
    by blast
  from Suc.IH [of ?s]
  obtain ns where ns: "new_enemies (add_members g tiles width depth p tier pool n ?s)
      = new_enemies ?s @ ns" "length ns \<le> n"
    "\<forall>m \<in> set ns. is_floor tiles width depth (position m) \<and> \<not> isBoss m
             \<and> level m = max 1 tier \<and> (\<exists>k. position m = member_candidate g p k)"
    by blast
  have "new_enemies (add_members g tiles width depth p tier pool (Suc n) st)
          = new_enemies st @ (ms @ ns)"
    and "length (ms @ ns) \<le> Suc n"
    and "\<forall>m \<in> set (ms @ ns). is_floor tiles width depth (position m) \<and> \<not> isBoss m
             \<and> level m = max 1 tier \<and> (\<exists>k. position m = member_candidate g p k)"
    using ms ns by auto
  then show ?case by blast
qed

lemma add_group_own:
  "\<exists>ms. new_enemies (add_group g tiles width depth p (distance p sp) st) = new_enemies st @ ms
      \<and> length ms \<le> 5
      \<and> (\<forall>m \<in> set ms. own_member g tiles width depth sp p m)"
proof -
  let ?tier = "get_tier_for_distance (distance p sp)"
  let ?pool = "if ?tier \<le> 2 then TIER1_MONSTERS @ TIER2_MONSTERS
             else if ?tier \<le> 3 then TIER2_MONSTERS @ TIER3_MONSTERS
             else TIER3_MONSTERS @ TIER4_MONSTERS"
  let ?n = "nat (randint g (draws st) 3 5)"
  let ?st = "st\<lparr>draws := draws st + 1\<rparr>"
  have n: "?n \<le> 5" by (simp add: randint_def randbelow_def)
  have t: "max 1 ?tier = ?tier" using tier_bounds [of "distance p sp"] by simp
  from add_members_own [of g tiles width depth p ?tier ?pool ?n ?st]
  obtain ms where ms: "new_enemies (add_members g tiles width depth p ?tier ?pool ?n ?st)
        = new_enemies st @ ms" "length ms \<le> ?n"
      "\<forall>m \<in> set ms. own_member g tiles width depth sp p m"
    unfolding t own_member_def by auto
  have "new_enemies (add_group g tiles width depth p (distance p sp) st) = new_enemies st @ ms"
    and "length ms \<le> 5"
    using ms n by (simp_all add: add_group_def Let_def)
  with ms(3) show ?thesis by blast
qed

lemma place_groups_own:
  assumes "place_groups g tiles width depth sp t anchors st = Inr st'"
  shows "\<exists>as gs. placed_positions st' = placed_positions st @ map Pos as
           \<and> new_enemies st' = new_enemies st @ concat gs
           \<and> list_all2 (\<lambda>a ms. length ms \<le> 5
                  \<and> (\<exists>s. new_enemies (add_group g tiles width depth a (distance a sp) s)
                            = new_enemies s @ ms)
                  \<and> (\<forall>m \<in> set ms. own_member g tiles width depth sp a m)) as gs
           \<and> set as \<subseteq> set anchors
           \<and> (\<forall>a \<in> set as. \<not> distance a sp < 40)"
    (is "?P st'")
  using assms
proof (rule place_groups_rule)
  have "placed_positions st = placed_positions st @ map Pos []
           \<and> new_enemies st = new_enemies st @ concat []
           \<and> list_all2 (\<lambda>a ms. length ms \<le> 5
                  \<and> (\<exists>s. new_enemies (add_group g tiles width depth a (distance a sp) s)
                            = new_enemies s @ ms)
                  \<and> (\<forall>m \<in> set ms. own_member g tiles width depth sp a m)) [] []
           \<and> set [] \<subseteq> set anchors
           \<and> (\<forall>a \<in> set []. \<not> distance a sp < 40)"
    by simp
  then show "?P st" by blast
next
  fix p s
  assume P: "?P s" and p: "p \<in> set anchors" and far: "\<not> distance p sp < 40"
  from P obtain as gs where
    as: "placed_positions s = placed_positions st @ map Pos as"
      "new_enemies s = new_enemies st @ concat gs"
      "list_all2 (\<lambda>a ms. length ms \<le> 5
          \<and> (\<exists>s. new_enemies (add_group g tiles width depth a (distance a sp) s)
                    = new_enemies s @ ms)
          \<and> (\<forall>m \<in> set ms. own_member g tiles width depth sp a m)) as gs"
      "set as \<subseteq> set anchors"
      "\<forall>a \<in> set as. \<not> distance a sp < 40"
    by blast
  let ?s = "add_group g tiles width depth p (distance p sp) s"
  from add_group_own [of g tiles width depth p sp s]
  obtain ns where ns: "new_enemies ?s = new_enemies s @ ns" "length ns \<le> 5"
    "\<forall>m \<in> set ns. own_member g tiles width depth sp p m"
    by blast
  have "placed_positions ?s = placed_positions st @ map Pos (as @ [p])"
    and "new_enemies ?s = new_enemies st @ concat (gs @ [ns])"
    and "set (as @ [p]) \<subseteq> set anchors"
    and "\<forall>a \<in> set (as @ [p]). \<not> distance a sp < 40"
    using as ns p far by (simp_all add: add_group_effect)
  moreover have "list_all2 (\<lambda>a ms. length ms \<le> 5
          \<and> (\<exists>s. new_enemies (add_group g tiles width depth a (distance a sp) s)
                    = new_enemies s @ ms)
          \<and> (\<forall>m \<in> set ms. own_member g tiles width depth sp a m)) (as @ [p]) (gs @ [ns])"
  proof (intro list_all2_appendI)
    have "\<exists>s. new_enemies (add_group g tiles width depth p (distance p sp) s)
                    = new_enemies s @ ns"
      using ns(1) by blast
    with ns(2,3) show "list_all2 (\<lambda>a ms. length ms \<le> 5
          \<and> (\<exists>s. new_enemies (add_group g tiles width depth a (distance a sp) s)
                    = new_enemies s @ ms)
          \<and> (\<forall>m \<in> set ms. own_member g tiles width depth sp a m)) [p] [ns]"
      by simp
  qed (fact as(3))
  ultimately show "?P ?s" by blast
qed

text \<open>
  Claim C8. Every generated entity stands on a floor cell of the decoded grid. The loops
  walk a permutation \<open>fl\<close> of the floor list: every generated monster's position is in
  bounds with tile code 1, and every prop record is a floor cell's coordinates plus
  jitter. In Phase C a candidate cell that is out of bounds or not floor emits nothing;
  the members emitted fall into one group per accepted anchor, in the order the anchors
  were registered; each group is what \<open>add_group\<close> appended for its anchor, and every
  member that \<open>add_group\<close> appends for an anchor is a non-boss monster on a candidate
  cell of that anchor whose level is the tier of that same anchor.
\<close>

theorem generated_on_floor:
  assumes "place_monsters g spawn_pos tm fl (start_state reg) = Inr st1"
    and "place_props g spawn_pos tp fl st1 = Inr st2"
    and "place_groups g tiles width depth spawn_pos tg (stride 50 fl) st2 = Inr st3"
    and "permutation_of fl (find_floor_positions tiles width depth)"
  shows "(\<forall>e \<in> set (new_enemies st3). is_floor tiles width depth (position e))
       \<and> (\<forall>pr \<in> set (new_props st3). \<exists>c. is_floor tiles width depth c \<and> prop_on g pr c)
       \<and> (\<forall>m \<in> set (drop (length (new_enemies st1)) (new_enemies st3)).
             \<not> isBoss m
             \<and> (\<exists>a \<in> set (stride 50 fl).
                   level m = get_tier_for_distance (distance a spawn_pos)))
       \<and> set (placed_between st2 st3) \<subseteq> set (stride 50 fl)
       \<and> (\<exists>gs. drop (length (new_enemies st1)) (new_enemies st3) = concat gs
             \<and> list_all2
                  (\<lambda>a ms. length ms \<le> 5
                     \<and> (\<exists>s. new_enemies
                                 (add_group g tiles width depth a (distance a spawn_pos) s)
                               = new_enemies s @ ms)
                     \<and> (\<forall>m \<in> set ms.
                           \<not> isBoss m
                           \<and> level m = get_tier_for_distance (distance a spawn_pos)
                           \<and> is_floor tiles width depth (position m)
                           \<and> (\<exists>k. position m = member_candidate g a k)))
                  (placed_between st2 st3) gs)
       \<and> (\<forall>p tier pool st.
             \<not> is_floor tiles width depth (member_candidate g p (draws st)) \<longrightarrow>
               new_enemies (add_member g tiles width depth p tier pool st) = new_enemies st)
       \<and> (\<forall>a st. \<exists>ms.
             new_enemies (add_group g tiles width depth a (distance a spawn_pos) st)
               = new_enemies st @ ms
             \<and> length ms \<le> 5
             \<and> (\<forall>m \<in> set ms.
                   \<not> isBoss m
                   \<and> level m = get_tier_for_distance (distance a spawn_pos)
                   \<and> is_floor tiles width depth (position m)
                   \<and> (\<exists>k. position m = member_candidate g a k)))"
proof -
  have fl: "is_floor tiles width depth p" if "p \<in> set fl" for p
    using that permutation_of_set [OF assms(4)] by (simp add: find_floor_iff)
  have a: "position ` set (new_enemies st1) \<subseteq> set fl" "new_props st1 = []"
    using place_monsters_inv [OF assms(1)] by (auto simp: start_state_def)
  have b: "new_enemies st2 = new_enemies st1"
    using place_props_inv [OF assms(2)] by blast
  from place_props_cells [OF assms(2)] a(2) obtain cs where
    cs: "list_all2 (prop_on g) (new_props st2) cs" "set cs \<subseteq> set fl"
    by auto
  have np: "new_props st3 = new_props st2"
    using place_groups_inv [OF assms(3)] by blast
  from place_groups_own [OF assms(3)] obtain as gs where
    gs: "placed_positions st3 = placed_positions st2 @ map Pos as"
      "new_enemies st3 = new_enemies st2 @ concat gs"
      "list_all2 (\<lambda>a ms. length ms \<le> 5
          \<and> (\<exists>s. new_enemies (add_group g tiles width depth a (distance a spawn_pos) s)
                    = new_enemies s @ ms)
          \<and> (\<forall>m \<in> set ms. own_member g tiles width depth spawn_pos a m)) as gs"
      "set as \<subseteq> set (stride 50 fl)"
    by blast
  have pb: "placed_between st2 st3 = as"
    using gs(1) by (rule placed_between_append)
  have dr: "drop (length (new_enemies st1)) (new_enemies st3) = concat gs"
    using gs(2) b by simp
  have own: "\<exists>a \<in> set as. own_member g tiles width depth spawn_pos a m"
    if "m \<in> set (concat gs)" for m
  proof -
    from that obtain ms where "ms \<in> set gs" "m \<in> set ms"
      by auto
    then obtain i where i: "i < length gs" "m \<in> set (gs ! i)"
      by (metis in_set_conv_nth)
    with gs(3) have "own_member g tiles width depth spawn_pos (as ! i) m" "i < length as"
      by (auto simp: list_all2_conv_all_nth)
    then show ?thesis by auto
  qed
  have one: "is_floor tiles width depth (position e)" if "e \<in> set (new_enemies st3)" for e
  proof (cases "e \<in> set (concat gs)")
    case True
    from own [OF this] show ?thesis by (auto simp: own_member_def)
  next
    case False
    with that gs(2) b have "e \<in> set (new_enemies st1)" by simp
    with a(1) have "position e \<in> set fl" by blast
    then show ?thesis by (rule fl)
  qed
  have two: "\<exists>c. is_floor tiles width depth c \<and> prop_on g pr c"
    if "pr \<in> set (new_props st3)" for pr
  proof -
    from that np obtain i where i: "i < length (new_props st2)" "new_props st2 ! i = pr"
      by (auto simp: in_set_conv_nth)
    with cs(1) have "prop_on g pr (cs ! i)" "i < length cs"
      by (auto simp: list_all2_conv_all_nth)
    moreover from this cs(2) have "is_floor tiles width depth (cs ! i)"
      by (intro fl) auto
    ultimately show ?thesis by blast
  qed
  have three: "\<not> isBoss m \<and> (\<exists>a \<in> set (stride 50 fl).
       level m = get_tier_for_distance (distance a spawn_pos))"
    if "m \<in> set (drop (length (new_enemies st1)) (new_enemies st3))" for m
  proof -
    from that dr have "m \<in> set (concat gs)" by simp
    from own [OF this] gs(4) show ?thesis by (auto simp: own_member_def)
  qed
  have four: "set (placed_between st2 st3) \<subseteq> set (stride 50 fl)"
    using pb gs(4) by simp
  have "list_all2
                  (\<lambda>a ms. length ms \<le> 5
                     \<and> (\<exists>s. new_enemies
                                 (add_group g tiles width depth a (distance a spawn_pos) s)
                               = new_enemies s @ ms)
                     \<and> (\<forall>m \<in> set ms.
                           \<not> isBoss m
                           \<and> level m = get_tier_for_distance (distance a spawn_pos)
                           \<and> is_floor tiles width depth (position m)
                           \<and> (\<exists>k. position m = member_candidate g a k)))
                  (placed_between st2 st3) gs"
    using gs(3) unfolding pb
    by (rule list_all2_mono) (auto simp: own_member_def)
  with dr have five: "\<exists>gs. drop (length (new_enemies st1)) (new_enemies st3) = concat gs
             \<and> list_all2
                  (\<lambda>a ms. length ms \<le> 5
                     \<and> (\<exists>s. new_enemies
                                 (add_group g tiles width depth a (distance a spawn_pos) s)
                               = new_enemies s @ ms)
                     \<and> (\<forall>m \<in> set ms.
                           \<not> isBoss m
                           \<and> level m = get_tier_for_distance (distance a spawn_pos)
                           \<and> is_floor tiles width depth (position m)
                           \<and> (\<exists>k. position m = member_candidate g a k)))
                  (placed_between st2 st3) gs"
    by blast
  have six: "\<forall>p tier pool st.
             \<not> is_floor tiles width depth (member_candidate g p (draws st)) \<longrightarrow>
               new_enemies (add_member g tiles width depth p tier pool st) = new_enemies st"
    by (simp add: add_member_discard)
  have seven: "\<forall>a st. \<exists>ms.
             new_enemies (add_group g tiles width depth a (distance a spawn_pos) st)
               = new_enemies st @ ms
             \<and> length ms \<le> 5
             \<and> (\<forall>m \<in> set ms.
                   \<not> isBoss m
                   \<and> level m = get_tier_for_distance (distance a spawn_pos)
                   \<and> is_floor tiles width depth (position m)
                   \<and> (\<exists>k. position m = member_candidate g a k))"
  proof (intro allI)
    fix a st
    from add_group_own [of g tiles width depth a spawn_pos st]
    show "\<exists>ms.
             new_enemies (add_group g tiles width depth a (distance a spawn_pos) st)
               = new_enemies st @ ms
             \<and> length ms \<le> 5
             \<and> (\<forall>m \<in> set ms.
                   \<not> isBoss m
                   \<and> level m = get_tier_for_distance (distance a spawn_pos)
                   \<and> is_floor tiles width depth (position m)
                   \<and> (\<exists>k. position m = member_candidate g a k))"
      unfolding own_member_def by blast
  qed
  show ?thesis
    apply (intro conjI)
          apply (use one in blast)
         apply (use two in blast)
        apply (use three in blast)
       apply (fact four)
      apply (fact five)
     apply (fact six)
    apply (fact seven)
    done
qed

theorem generated_on_floor_witness:
  "\<exists>st1 st2 st3.
     place_monsters \<lparr>shuffle = (\<lambda>xs. xs), bits = (\<lambda>k. k), unit01 = (\<lambda>k. if k = 8 then 0 else 1 / 2)\<rparr> (0, 0) 1
       [(0, 0), (0, 1), (0, 2), (0, 3), (0, 4), (0, 5), (0, 6), (0, 7), (0, 8), (0, 9), (0, 10),
       (0, 11), (0, 12), (0, 13), (0, 14), (0, 15), (0, 16), (0, 17), (0, 18), (0, 19), (0, 20),
       (0, 21), (0, 22), (0, 23), (0, 24), (0, 25), (0, 26), (0, 27), (0, 28), (0, 29), (0, 30),
       (0, 31), (0, 32), (0, 33), (0, 34), (0, 35), (0, 36), (0, 37), (0, 38), (0, 39), (0, 40),
       (0, 41), (0, 42), (0, 43), (0, 44), (0, 45), (0, 46), (0, 47), (0, 48), (0, 49), (0, 50)] (start_state []) = Inr st1
     \<and> place_props \<lparr>shuffle = (\<lambda>xs. xs), bits = (\<lambda>k. k), unit01 = (\<lambda>k. if k = 8 then 0 else 1 / 2)\<rparr> (0, 0) 1
       [(0, 0), (0, 1), (0, 2), (0, 3), (0, 4), (0, 5), (0, 6), (0, 7), (0, 8), (0, 9), (0, 10),
       (0, 11), (0, 12), (0, 13), (0, 14), (0, 15), (0, 16), (0, 17), (0, 18), (0, 19), (0, 20),
       (0, 21), (0, 22), (0, 23), (0, 24), (0, 25), (0, 26), (0, 27), (0, 28), (0, 29), (0, 30),
       (0, 31), (0, 32), (0, 33), (0, 34), (0, 35), (0, 36), (0, 37), (0, 38), (0, 39), (0, 40),
       (0, 41), (0, 42), (0, 43), (0, 44), (0, 45), (0, 46), (0, 47), (0, 48), (0, 49), (0, 50)] st1 = Inr st2
     \<and> place_groups \<lparr>shuffle = (\<lambda>xs. xs), bits = (\<lambda>k. k), unit01 = (\<lambda>k. if k = 8 then 0 else 1 / 2)\<rparr>
       [replicate 51 1] 1 51 (0, 0) 1
       (stride 50 [(0, 0), (0, 1), (0, 2), (0, 3), (0, 4), (0, 5), (0, 6), (0, 7), (0, 8), (0, 9), (0, 10),
       (0, 11), (0, 12), (0, 13), (0, 14), (0, 15), (0, 16), (0, 17), (0, 18), (0, 19), (0, 20),
       (0, 21), (0, 22), (0, 23), (0, 24), (0, 25), (0, 26), (0, 27), (0, 28), (0, 29), (0, 30),
       (0, 31), (0, 32), (0, 33), (0, 34), (0, 35), (0, 36), (0, 37), (0, 38), (0, 39), (0, 40),
       (0, 41), (0, 42), (0, 43), (0, 44), (0, 45), (0, 46), (0, 47), (0, 48), (0, 49), (0, 50)]) st2 = Inr st3
     \<and> map position (new_enemies st3) = [(0, 15), (0, 50), (0, 50), (0, 50)]
     \<and> placed_between st2 st3 = [(0, 50)]
     \<and> is_floor [replicate 51 1] 1 51 (position (new_enemies st3 ! 0))
     \<and> is_floor [replicate 51 1] 1 51 (position (new_enemies st3 ! 3))
     \<and> \<not> isBoss (new_enemies st3 ! 3)
     \<and> level (new_enemies st3 ! 3) = get_tier_for_distance (distance (0, 50) (0, 0))
     \<and> get_tier_for_distance (distance (0, 50) (0, 0)) = 2
     \<and> member_candidate \<lparr>shuffle = (\<lambda>xs. xs), bits = (\<lambda>k. k), unit01 = (\<lambda>k. if k = 8 then 0 else 1 / 2)\<rparr> (0, 50) 8 = (- 4, 50)
     \<and> \<not> is_floor [replicate 51 1] 1 51 (member_candidate \<lparr>shuffle = (\<lambda>xs. xs), bits = (\<lambda>k. k), unit01 = (\<lambda>k. if k = 8 then 0 else 1 / 2)\<rparr> (0, 50) 8)
     \<and> length (new_props st3) = 1"
proof -
  let ?g = "\<lparr>shuffle = (\<lambda>xs. xs), bits = (\<lambda>k. k), unit01 = (\<lambda>k. if k = 8 then 0 else 1 / 2)\<rparr>"
  let ?tiles = "[replicate 51 1] :: grid"
  let ?fl = "[(0, 0), (0, 1), (0, 2), (0, 3), (0, 4), (0, 5), (0, 6), (0, 7), (0, 8), (0, 9), (0, 10),
       (0, 11), (0, 12), (0, 13), (0, 14), (0, 15), (0, 16), (0, 17), (0, 18), (0, 19), (0, 20),
       (0, 21), (0, 22), (0, 23), (0, 24), (0, 25), (0, 26), (0, 27), (0, 28), (0, 29), (0, 30),
       (0, 31), (0, 32), (0, 33), (0, 34), (0, 35), (0, 36), (0, 37), (0, 38), (0, 39), (0, 40),
       (0, 41), (0, 42), (0, 43), (0, 44), (0, 45), (0, 46), (0, 47), (0, 48), (0, 49), (0, 50)] :: pos list"
  let ?e = "\<lparr>e_type = ''dungeon_rat'', roomId = - 1, position = (0, 15), level = 1,
             isBoss = False, rotationY = 157 / 50\<rparr>"
  have ff: "find_floor_positions ?tiles 1 51 = ?fl"
    by code_simp
  have perm: "permutation_of ?fl (find_floor_positions ?tiles 1 51)"
    unfolding ff by (simp add: permutation_of_def)
  have anchors: "stride 50 ?fl = [(0, 0), (0, 50)]"
    by simp
  obtain st1 where e1: "place_monsters ?g (0, 0) 1 ?fl (start_state []) = Inr st1"
    and s1: "new_enemies st1 = [?e]" "placed_positions st1 = [Pos (0, 15)]"
      "props_placed st1 = 0" "groups_placed st1 = 0" "new_props st1 = []" "draws st1 = 2"
    by (simp add: placement_eval)
  obtain st2 where e2: "place_props ?g (0, 0) 1 ?fl st1 = Inr st2"
    and s2: "new_enemies st2 = [?e]"
      "placed_positions st2 = [Pos (0, 15), Pos (0, 0)]"
      "groups_placed st2 = 0" "length (new_props st2) = 1" "draws st2 = 7"
    by (simp add: placement_eval s1)
  obtain st3 where e3: "place_groups ?g ?tiles 1 51 (0, 0) 1 (stride 50 ?fl) st2 = Inr st3"
    and s3: "map position (new_enemies st3) = [(0, 15), (0, 50), (0, 50), (0, 50)]"
      "placed_positions st3 = placed_positions st2 @ map Pos [(0, 50)]"
      "length (new_props st3) = 1"
    unfolding anchors by (simp add: placement_eval s2 add_members_unfold)
  have pb: "placed_between st2 st3 = [(0, 50)]"
    using s3(2) by (rule placed_between_append)
  have tier: "get_tier_for_distance (distance (0, 50) (0, 0)) = 2"
    by (simp add: dist_eval get_tier_for_distance_def)
  have cand: "member_candidate ?g (0, 50) 8 = (- 4, 50)"
    by (simp add: member_candidate_def uniform_def py_int_def)
  have off: "\<not> is_floor ?tiles 1 51 (member_candidate ?g (0, 50) 8)"
    unfolding cand by (simp add: is_floor_def)
  have l1: "length (new_enemies st1) = 1" "length (new_enemies st3) = 4"
    using s1(1) arg_cong [OF s3(1), of length] by simp_all
  have in0: "new_enemies st3 ! 0 \<in> set (new_enemies st3)"
    and in3: "new_enemies st3 ! 3 \<in> set (new_enemies st3)"
    using l1 by simp_all
  have "drop 1 (new_enemies st3) ! 2 = new_enemies st3 ! 3"
    and "2 < length (drop 1 (new_enemies st3))"
    using l1 by (simp_all add: eval_nat_numeral)
  then have dr3: "new_enemies st3 ! 3 \<in> set (drop (length (new_enemies st1)) (new_enemies st3))"
    unfolding l1(1) by (metis nth_mem)
  note inst = generated_on_floor [OF e1 e2 e3 perm]
  from inst in0 in3
  have f0: "is_floor ?tiles 1 51 (position (new_enemies st3 ! 0))"
    and f3: "is_floor ?tiles 1 51 (position (new_enemies st3 ! 3))"
    by blast+
  from inst obtain gs where
    gs: "drop (length (new_enemies st1)) (new_enemies st3) = concat gs"
      "list_all2
          (\<lambda>a ms. length ms \<le> 5
             \<and> (\<exists>s. new_enemies (add_group ?g ?tiles 1 51 a (distance a (0, 0)) s)
                       = new_enemies s @ ms)
             \<and> (\<forall>m \<in> set ms.
                   \<not> isBoss m
                   \<and> level m = get_tier_for_distance (distance a (0, 0))
                   \<and> is_floor ?tiles 1 51 (position m)
                   \<and> (\<exists>k. position m = member_candidate ?g a k)))
          (placed_between st2 st3) gs"
    by blast
  from gs(2) obtain ms where ms: "gs = [ms]"
    "\<forall>m \<in> set ms. \<not> isBoss m \<and> level m = get_tier_for_distance (distance (0, 50) (0, 0))"
    unfolding pb by (auto simp: list_all2_Cons1)
  from gs(1) ms(1) dr3 have "new_enemies st3 ! 3 \<in> set ms" by simp
  with ms(2) have nb: "\<not> isBoss (new_enemies st3 ! 3)"
    and lv: "level (new_enemies st3 ! 3) = get_tier_for_distance (distance (0, 50) (0, 0))"
    by blast+
  show ?thesis
    apply (rule exI [of _ st1])
    apply (rule exI [of _ st2])
    apply (rule exI [of _ st3])
    apply (intro conjI)
                apply (fact e1)
               apply (fact e2)
              apply (fact e3)
             apply (fact s3(1))
            apply (fact pb)
           apply (fact f0)
          apply (fact f3)
         apply (fact nb)
        apply (fact lv)
       apply (fact tier)
      apply (fact cand)
     apply (fact off)
    apply (fact s3(3))
    done
qed

section \<open>The crash at the first clearance check\<close>

lemma clear_Coord: "is_position_clear p (Coord a # rest) d = Inl TypeError"
  by simp

lemma place_monsters_Coord:
  assumes "placed_positions st = Coord a # r"
  shows "place_monsters g sp t fl st = Inl TypeError \<or> place_monsters g sp t fl st = Inr st"
  using assms by (induction fl) auto

lemma place_props_Coord:
  assumes "placed_positions st = Coord a # r" and "props_placed st < t" and "fl \<noteq> []"
  shows "place_props g sp t fl st = Inl TypeError"
  using assms by (cases fl) auto

lemma place_props_done:
  "\<not> props_placed st < t \<Longrightarrow> place_props g sp t fl st = Inr st"
  by (cases fl) auto

lemma place_monsters_done:
  "\<not> monsters_placed st < t \<Longrightarrow> place_monsters g sp t fl st = Inr st"
  by (cases fl) auto

lemma place_groups_done:
  "\<not> groups_placed st < t \<Longrightarrow> place_groups g tiles width depth sp t fl st = Inr st"
  by (cases fl) auto

lemma run_phases_crash:
  assumes "50 \<le> length fl"
  shows "run_phases g tiles width depth sp fl (Coord a # r) = Inl TypeError"
proof -
  let ?st = "start_state (Coord a # r)"
  have reg: "placed_positions ?st = Coord a # r" and p0: "props_placed ?st = 0"
    by (simp_all add: start_state_def)
  from assms have t: "0 < length fl div 50" and ne: "fl \<noteq> []"
    by (auto simp: div_greater_zero_iff)
  from place_monsters_Coord [OF reg, of g sp "length fl div 100" fl]
  show ?thesis
  proof
    assume "place_monsters g sp (length fl div 100) fl ?st = Inl TypeError"
    then show ?thesis by (simp add: run_phases_def)
  next
    assume a: "place_monsters g sp (length fl div 100) fl ?st = Inr ?st"
    have "place_props g sp (length fl div 50) fl ?st = Inl TypeError"
      using reg _ ne by (rule place_props_Coord) (simp add: p0 t)
    with a show ?thesis by (simp add: run_phases_def)
  qed
qed

lemma run_phases_idle:
  assumes "length fl < 50"
  shows "run_phases g tiles width depth sp fl reg = Inr (start_state reg)"
proof -
  let ?st = "start_state reg"
  from assms have "length fl div 100 = 0" "length fl div 50 = 0" "length fl div 500 = 0"
    by simp_all
  then show ?thesis
    by (simp add: run_phases_def place_monsters_done place_props_done place_groups_done)
qed

lemma run_phases_initial:
  "run_phases g tiles width depth sp fl (initial_register sp' existing) =
     (if 50 \<le> length fl then Inl TypeError
      else Inr (start_state (initial_register sp' existing)))"
  using run_phases_crash [of fl g tiles width depth sp "fst sp'"]
    run_phases_idle [of fl g tiles width depth sp]
  by (simp add: initial_register_def not_le)

text \<open>\<open>populate_map\<close> on a document that is present, has tile data, and decodes.\<close>

lemma populate_map_decoded:
  assumes "fs input_path = Some map_data"
    and "get_or (d_tileData map_data) [] \<noteq> []"
    and "decode_tile_data unwrap (get_or (d_tileData map_data) [])
           (get_or (d_width map_data) 100) (get_or (d_depth map_data) 100) = Inr tiles"
    and "permutation_of (shuffle g (find_floor_positions tiles
           (get_or (d_width map_data) 100) (get_or (d_depth map_data) 100)))
         (find_floor_positions tiles
           (get_or (d_width map_data) 100) (get_or (d_depth map_data) 100))"
  shows "populate_map unwrap g fs input_path output_path =
     (if 50 \<le> length (find_floor_positions tiles
           (get_or (d_width map_data) 100) (get_or (d_depth map_data) 100))
      then (Raised TypeError, fs)
      else (Saved, fs(output_path \<mapsto> merge map_data [] [])))"
  using assms permutation_of_length [OF assms(4)]
  by (simp add: populate_map_def Let_def run_phases_initial start_state_def)

text \<open>
  Claim C1. \<open>placed_positions = list(spawn_pos)\<close> makes the first two register entries
  the spawn point's two integer coordinates, so every clearance check against the register
  raises \<open>TypeError\<close> at its first entry. For a document that is present, has tile data
  and decodes: with at least 50 floor cells \<open>populate_map\<close> raises \<open>TypeError\<close> and
  writes nothing; it returns after saving exactly when there are fewer than 50 floor
  cells, and then all three targets are 0 and the saved document has no generated entity.
\<close>

theorem populate_map_type_error:
  assumes "fs input_path = Some map_data"
    and "get_or (d_tileData map_data) [] \<noteq> []"
    and "width = get_or (d_width map_data) 100" and "depth = get_or (d_depth map_data) 100"
    and "decode_tile_data unwrap (get_or (d_tileData map_data) []) width depth = Inr tiles"
    and "floor_positions = find_floor_positions tiles width depth"
    and "permutation_of (shuffle g floor_positions) floor_positions"
    and "register = initial_register (spawn_of map_data) (get_or (d_enemies map_data) [])"
  shows "take 2 register = [Coord (fst (spawn_of map_data)), Coord (snd (spawn_of map_data))]
     \<and> (\<forall>p d. is_position_clear p register d = Inl TypeError)
     \<and> (50 \<le> length floor_positions \<longrightarrow>
           populate_map unwrap g fs input_path output_path = (Raised TypeError, fs))
     \<and> (fst (populate_map unwrap g fs input_path output_path) = Saved
           \<longleftrightarrow> length floor_positions < 50)
     \<and> (length floor_positions < 50 \<longrightarrow>
           length floor_positions div 100 = 0 \<and> length floor_positions div 50 = 0
           \<and> min 20 (length floor_positions div 500) = 0
           \<and> populate_map unwrap g fs input_path output_path
                = (Saved, fs(output_path \<mapsto> merge map_data [] [])))"
proof -
  have run: "populate_map unwrap g fs input_path output_path =
     (if 50 \<le> length floor_positions then (Raised TypeError, fs)
      else (Saved, fs(output_path \<mapsto> merge map_data [] [])))"
    using populate_map_decoded [of fs input_path map_data unwrap tiles g output_path] assms
    by simp
  have "take 2 register = [Coord (fst (spawn_of map_data)), Coord (snd (spawn_of map_data))]"
    and "\<forall>p d. is_position_clear p register d = Inl TypeError"
    using assms(8) by (simp_all add: initial_register_def)
  moreover have "50 \<le> length floor_positions \<longrightarrow>
           populate_map unwrap g fs input_path output_path = (Raised TypeError, fs)"
    using run by simp
  moreover have "fst (populate_map unwrap g fs input_path output_path) = Saved
           \<longleftrightarrow> length floor_positions < 50"
    using run by auto
  moreover have "length floor_positions < 50 \<longrightarrow>
           length floor_positions div 100 = 0 \<and> length floor_positions div 50 = 0
           \<and> min 20 (length floor_positions div 500) = 0
           \<and> populate_map unwrap g fs input_path output_path
                = (Saved, fs(output_path \<mapsto> merge map_data [] []))"
    using run by simp
  ultimately show ?thesis by blast
qed

theorem populate_map_type_error_witness:
  "populate_map (\<lambda>s. Some [1, 0xFF, 50])
     \<lparr>shuffle = (\<lambda>xs. xs), bits = (\<lambda>k. k), unit01 = (\<lambda>k. 1 / 2)\<rparr>
     [''in.json'' \<mapsto> \<lparr>d_width = Some 5, d_depth = Some 10, d_spawnPosition = None,
        d_tileData = Some ''blob'', d_enemies = None, d_placedProps = None, d_name = None\<rparr>]
     ''in.json'' ''out.json''
   = (Raised TypeError,
      [''in.json'' \<mapsto> \<lparr>d_width = Some 5, d_depth = Some 10, d_spawnPosition = None,
        d_tileData = Some ''blob'', d_enemies = None, d_placedProps = None, d_name = None\<rparr>])
   \<and> length (find_floor_positions (rle_decode [1, 0xFF, 50] 5 10) 5 10) = 50"
proof -
  let ?doc = "\<lparr>d_width = Some 5, d_depth = Some 10, d_spawnPosition = None,
        d_tileData = Some ''blob'', d_enemies = None, d_placedProps = None, d_name = None\<rparr>"
  let ?g = "\<lparr>shuffle = (\<lambda>xs. xs), bits = (\<lambda>k. k), unit01 = (\<lambda>k. 1 / 2)\<rparr>"
  let ?fs = "[''in.json'' \<mapsto> ?doc]"
  let ?unwrap = "\<lambda>s :: string. Some [1, 0xFF, 50 :: byte]"
  let ?tiles = "rle_decode [1, 0xFF, 50] 5 10"
  let ?fl = "find_floor_positions ?tiles 5 10"
  have n: "length ?fl = 50"
    by code_simp
  have h1: "?fs ''in.json'' = Some ?doc" by simp
  have h2: "get_or (d_tileData ?doc) [] \<noteq> []" by (simp add: get_or_def)
  have h3: "(5 :: int) = get_or (d_width ?doc) 100" "(10 :: int) = get_or (d_depth ?doc) 100"
    by (simp_all add: get_or_def)
  have h4: "decode_tile_data ?unwrap (get_or (d_tileData ?doc) []) 5 10 = Inr ?tiles"
    by (simp add: decode_tile_data_def)
  have h5: "permutation_of (shuffle ?g ?fl) ?fl"
    by (simp add: permutation_of_def)
  from populate_map_type_error [where fs = ?fs and input_path = "''in.json''"
      and map_data = ?doc and unwrap = ?unwrap and g = ?g and output_path = "''out.json''",
      OF h1 h2 h3 h4 refl h5 refl] n
  show ?thesis by simp
qed

section \<open>Register contents, merge and exit behaviour\<close>

lemma populate_map_ignores_props:
  "fst (populate_map unwrap g (fs(input_path \<mapsto> map_data\<lparr>d_placedProps := props\<rparr>))
          input_path output_path)
   = fst (populate_map unwrap g (fs(input_path \<mapsto> map_data)) input_path output_path)"
  by (simp add: populate_map_def Let_def spawn_of_def split: sum.splits)

lemma clear_append:
  "is_position_clear p (r @ s) d =
     (case is_position_clear p r d of
        Inl e \<Rightarrow> Inl e
      | Inr b \<Rightarrow> if b then is_position_clear p s d else Inr False)"
  by (induction r) (auto split: sum.splits)

lemma same_clearance_append:
  "same_clearance r r' \<Longrightarrow> same_clearance (r @ s) (r' @ s)"
  by (simp add: same_clearance_def clear_append)

lemma add_monster_same:
  "same_but_register st st' \<Longrightarrow>
     same_but_register (add_monster g p d st) (add_monster g p d st')"
  by (simp add: same_but_register_def add_monster_def Let_def same_clearance_append
        split: prod.splits)

lemma add_prop_same:
  "same_but_register st st' \<Longrightarrow>
     same_but_register (add_prop g p d st) (add_prop g p d st')"
  by (simp add: same_but_register_def add_prop_def Let_def same_clearance_append)

lemma add_member_same:
  "same_but_register st st' \<Longrightarrow>
     same_but_register (add_member g tiles width depth p tier pool st)
       (add_member g tiles width depth p tier pool st')"
  by (simp add: same_but_register_def add_member_def Let_def)

lemma add_members_same:
  "same_but_register st st' \<Longrightarrow>
     same_but_register (add_members g tiles width depth p tier pool n st)
       (add_members g tiles width depth p tier pool n st')"
  by (induction n arbitrary: st st') (simp_all add: add_member_same)

lemma add_group_same:
  assumes "same_but_register st st'"
  shows "same_but_register (add_group g tiles width depth p d st)
           (add_group g tiles width depth p d st')"
proof -
  let ?tier = "get_tier_for_distance d"
  let ?pool = "if ?tier \<le> 2 then TIER1_MONSTERS @ TIER2_MONSTERS
             else if ?tier \<le> 3 then TIER2_MONSTERS @ TIER3_MONSTERS
             else TIER3_MONSTERS @ TIER4_MONSTERS"
  from assms have k: "draws st = draws st'" by (simp add: same_but_register_def)
  from assms have "same_but_register (st\<lparr>draws := draws st + 1\<rparr>) (st'\<lparr>draws := draws st' + 1\<rparr>)"
    by (simp add: same_but_register_def)
  then have "same_but_register
      (add_members g tiles width depth p ?tier ?pool (nat (randint g (draws st) 3 5))
         (st\<lparr>draws := draws st + 1\<rparr>))
      (add_members g tiles width depth p ?tier ?pool (nat (randint g (draws st) 3 5))
         (st'\<lparr>draws := draws st' + 1\<rparr>))"
    by (rule add_members_same)
  then show ?thesis
    unfolding add_group_def Let_def k [symmetric]
    by (simp add: same_but_register_def same_clearance_append)
qed

lemma place_monsters_same:
  "same_but_register st st' \<Longrightarrow>
     rel_sum (=) same_but_register (place_monsters g sp t fl st) (place_monsters g sp t fl st')"
proof (induction fl arbitrary: st st')
  case Nil
  then show ?case by simp
next
  case (Cons p rest)
  from Cons.prems have m: "monsters_placed st = monsters_placed st'"
    and "same_clearance (placed_positions st) (placed_positions st')"
    by (simp_all add: same_but_register_def)
  then have c: "is_position_clear p (placed_positions st) 5
      = is_position_clear p (placed_positions st') 5"
    unfolding same_clearance_def by blast
  show ?case
  proof (cases "monsters_placed st' \<ge> t \<or> distance p sp < 15")
    case True
    with m Cons.prems Cons.IH [OF Cons.prems] show ?thesis by auto
  next
    case False
    show ?thesis
    proof (cases "is_position_clear p (placed_positions st') 5")
      case (Inl e)
      with False m c show ?thesis by simp
    next
      case (Inr clear)
      with False m c Cons.IH [OF Cons.prems]
        Cons.IH [OF add_monster_same [OF Cons.prems, of g p "distance p sp"]]
      show ?thesis by simp
    qed
  qed
qed

lemma place_props_same:
  "same_but_register st st' \<Longrightarrow>
     rel_sum (=) same_but_register (place_props g sp t fl st) (place_props g sp t fl st')"
proof (induction fl arbitrary: st st')
  case Nil
  then show ?case by simp
next
  case (Cons p rest)
  from Cons.prems have m: "props_placed st = props_placed st'"
    and "same_clearance (placed_positions st) (placed_positions st')"
    by (simp_all add: same_but_register_def)
  then have c: "is_position_clear p (placed_positions st) 2
      = is_position_clear p (placed_positions st') 2"
    unfolding same_clearance_def by blast
  show ?case
  proof (cases "props_placed st' \<ge> t")
    case True
    with m Cons.prems show ?thesis by simp
  next
    case False
    show ?thesis
    proof (cases "is_position_clear p (placed_positions st') 2")
      case (Inl e)
      with False m c show ?thesis by simp
    next
      case (Inr clear)
      with False m c Cons.IH [OF Cons.prems]
        Cons.IH [OF add_prop_same [OF Cons.prems, of g p "distance p sp"]]
      show ?thesis by simp
    qed
  qed
qed

lemma place_groups_same:
  "same_but_register st st' \<Longrightarrow>
     rel_sum (=) same_but_register
       (place_groups g tiles width depth sp t fl st)
       (place_groups g tiles width depth sp t fl st')"
proof (induction fl arbitrary: st st')
  case Nil
  then show ?case by simp
next
  case (Cons p rest)
  from Cons.prems have m: "groups_placed st = groups_placed st'"
    and "same_clearance (placed_positions st) (placed_positions st')"
    by (simp_all add: same_but_register_def)
  then have c: "is_position_clear p (placed_positions st) 10
      = is_position_clear p (placed_positions st') 10"
    unfolding same_clearance_def by blast
  show ?case
  proof (cases "groups_placed st' \<ge> t \<or> distance p sp < 40")
    case True
    with m Cons.prems Cons.IH [OF Cons.prems] show ?thesis by auto
  next
    case False
    show ?thesis
    proof (cases "is_position_clear p (placed_positions st') 10")
      case (Inl e)
      with False m c show ?thesis by simp
    next
      case (Inr clear)
      with False m c Cons.IH [OF Cons.prems]
        Cons.IH [OF add_group_same [OF Cons.prems, of g tiles width depth p "distance p sp"]]
      show ?thesis by simp
    qed
  qed
qed

lemma run_phases_same:
  assumes "same_clearance r r'"
  shows "generated (run_phases g tiles width depth sp fl r)
       = generated (run_phases g tiles width depth sp fl r')"
proof -
  let ?A = "place_monsters g sp (length fl div 100) fl (start_state r)"
  let ?A' = "place_monsters g sp (length fl div 100) fl (start_state r')"
  from assms have "same_but_register (start_state r) (start_state r')"
    by (simp add: same_but_register_def start_state_def)
  then have a: "rel_sum (=) same_but_register ?A ?A'"
    by (rule place_monsters_same)
  show ?thesis
  proof (cases ?A)
    case (Inl e)
    with a have "?A' = Inl e" by (cases ?A') simp_all
    with Inl show ?thesis by (simp add: run_phases_def generated_def)
  next
    case (Inr st1)
    with a obtain st1' where A': "?A' = Inr st1'" and s1: "same_but_register st1 st1'"
      by (cases ?A') simp_all
    let ?B = "place_props g sp (length fl div 50) fl st1"
    let ?B' = "place_props g sp (length fl div 50) fl st1'"
    from s1 have b: "rel_sum (=) same_but_register ?B ?B'"
      by (rule place_props_same)
    show ?thesis
    proof (cases ?B)
      case (Inl e)
      with b have "?B' = Inl e" by (cases ?B') simp_all
      with Inl Inr A' show ?thesis by (simp add: run_phases_def generated_def)
    next
      case st2: (Inr st2)
      with b obtain st2' where B': "?B' = Inr st2'" and s2: "same_but_register st2 st2'"
        by (cases ?B') simp_all
      let ?C = "place_groups g tiles width depth sp (min 20 (length fl div 500))
                  (stride 50 fl) st2"
      let ?C' = "place_groups g tiles width depth sp (min 20 (length fl div 500))
                  (stride 50 fl) st2'"
      from s2 have c: "rel_sum (=) same_but_register ?C ?C'"
        by (rule place_groups_same)
      have "generated ?C = generated ?C'"
      proof (cases ?C)
        case (Inl e)
        with c have "?C' = Inl e" by (cases ?C') simp_all
        with Inl show ?thesis by (simp add: generated_def)
      next
        case (Inr st3)
        with c obtain st3' where "?C' = Inr st3'" "same_but_register st3 st3'"
          by (cases ?C') simp_all
        with Inr show ?thesis by (simp add: generated_def same_but_register_def)
      qed
      with Inr A' st2 B' show ?thesis by (simp add: run_phases_def)
    qed
  qed
qed

lemma populate_map_run:
  assumes "get_or (d_tileData doc) [] \<noteq> []"
    and "decode_tile_data unwrap (get_or (d_tileData doc) [])
           (get_or (d_width doc) 100) (get_or (d_depth doc) 100) = Inr tiles"
  shows "populate_map unwrap g (fs(input_path \<mapsto> doc\<lparr>d_placedProps := props\<rparr>))
           input_path output_path
       = (case run_phases g tiles (get_or (d_width doc) 100) (get_or (d_depth doc) 100)
                 (spawn_of doc)
                 (shuffle g (find_floor_positions tiles
                    (get_or (d_width doc) 100) (get_or (d_depth doc) 100)))
                 (initial_register (spawn_of doc) (get_or (d_enemies doc) [])) of
            Inl e \<Rightarrow> (Raised e, fs(input_path \<mapsto> doc\<lparr>d_placedProps := props\<rparr>))
          | Inr st \<Rightarrow>
              (Saved, (fs(input_path \<mapsto> doc\<lparr>d_placedProps := props\<rparr>))
                 (output_path \<mapsto> merge (doc\<lparr>d_placedProps := props\<rparr>)
                                    (new_enemies st) (new_props st))))"
  using assms by (simp add: populate_map_def Let_def spawn_of_def)

text \<open>
  Claim C3, as the code has it. Before Phase A begins, the occupancy register is the
  entries made for the spawn point, which identify the spawn point, followed by the
  position of every pre-existing enemy of the input document, in document order.
  Pre-existing props are not registered: whatever the document's \<open>placedProps\<close>, the
  loops run from this same register. The register is used only for spacing checks (a
  register that answers every clearance check alike leads to the same generated entities)
  and is never serialized: the document written is the merge of the input document
  with the generated monsters and props, whatever the register holds.
\<close>

theorem register_before_phase_a:
  assumes "get_or (d_tileData doc) [] \<noteq> []"
    and "width = get_or (d_width doc) 100" and "depth = get_or (d_depth doc) 100"
    and "decode_tile_data unwrap (get_or (d_tileData doc) []) width depth = Inr tiles"
    and "register = initial_register (spawn_of doc) (get_or (d_enemies doc) [])"
    and "doc' = doc\<lparr>d_placedProps := props\<rparr>"
  shows "initial_register spawn_pos existing
           = initial_register spawn_pos [] @ map (\<lambda>e. Pos (position e)) existing
       \<and> entry_positions (drop (length (initial_register spawn_pos []))
                               (initial_register spawn_pos existing))
           = map position existing
       \<and> (initial_register spawn_pos [] = initial_register spawn_pos' [])
           = (spawn_pos = spawn_pos')
       \<and> register = initial_register (spawn_of doc) []
                      @ map (\<lambda>e. Pos (position e)) (get_or (d_enemies doc) [])
       \<and> populate_map unwrap g (fs(input_path \<mapsto> doc')) input_path output_path
           = (case run_phases g tiles width depth (spawn_of doc)
                     (shuffle g (find_floor_positions tiles width depth)) register of
                Inl e \<Rightarrow> (Raised e, fs(input_path \<mapsto> doc'))
              | Inr st \<Rightarrow>
                  (Saved, (fs(input_path \<mapsto> doc'))
                     (output_path \<mapsto> merge doc' (new_enemies st) (new_props st))))
       \<and> fst (populate_map unwrap g (fs(input_path \<mapsto> doc')) input_path output_path)
           = fst (populate_map unwrap g (fs(input_path \<mapsto> doc)) input_path output_path)
       \<and> (\<forall>r sp fl. same_clearance r register \<longrightarrow>
             generated (run_phases g tiles width depth sp fl r)
               = generated (run_phases g tiles width depth sp fl register))
       \<and> (\<forall>st r. merge doc' (new_enemies (st\<lparr>placed_positions := r\<rparr>))
                              (new_props (st\<lparr>placed_positions := r\<rparr>))
                    = merge doc' (new_enemies st) (new_props st))"
proof -
  have "map (\<lambda>e. Pos (position e)) existing = map Pos (map position existing)"
    by simp
  then have e: "entry_positions (map (\<lambda>e. Pos (position e)) existing) = map position existing"
    by (simp only: entry_positions_Pos)
  have one: "initial_register spawn_pos existing
           = initial_register spawn_pos [] @ map (\<lambda>e. Pos (position e)) existing"
    by (simp add: initial_register_def)
  have two: "entry_positions (drop (length (initial_register spawn_pos []))
                               (initial_register spawn_pos existing))
           = map position existing"
    using e by (simp add: initial_register_def)
  have three: "(initial_register spawn_pos [] = initial_register spawn_pos' [])
           = (spawn_pos = spawn_pos')"
    by (auto simp: initial_register_def prod_eq_iff)
  have four: "register = initial_register (spawn_of doc) []
                      @ map (\<lambda>e. Pos (position e)) (get_or (d_enemies doc) [])"
    unfolding assms(5) by (simp add: initial_register_def)
  have five: "populate_map unwrap g (fs(input_path \<mapsto> doc')) input_path output_path
           = (case run_phases g tiles width depth (spawn_of doc)
                     (shuffle g (find_floor_positions tiles width depth)) register of
                Inl e \<Rightarrow> (Raised e, fs(input_path \<mapsto> doc'))
              | Inr st \<Rightarrow>
                  (Saved, (fs(input_path \<mapsto> doc'))
                     (output_path \<mapsto> merge doc' (new_enemies st) (new_props st))))"
    unfolding assms(2,3,5,6)
    using assms(1) assms(4) [unfolded assms(2,3)] by (rule populate_map_run)
  have six: "fst (populate_map unwrap g (fs(input_path \<mapsto> doc')) input_path output_path)
           = fst (populate_map unwrap g (fs(input_path \<mapsto> doc)) input_path output_path)"
    unfolding assms(6) by (rule populate_map_ignores_props)
  have seven: "\<forall>r sp fl. same_clearance r register \<longrightarrow>
             generated (run_phases g tiles width depth sp fl r)
               = generated (run_phases g tiles width depth sp fl register)"
    by (simp add: run_phases_same)
  have eight: "\<forall>st r. merge doc' (new_enemies (st\<lparr>placed_positions := r\<rparr>))
                              (new_props (st\<lparr>placed_positions := r\<rparr>))
                    = merge doc' (new_enemies st) (new_props st)"
    by simp
  from one two three four five six seven eight show ?thesis by blast
qed

theorem register_before_phase_a_witness:
  "initial_register (spawn_of \<lparr>d_width = Some 2, d_depth = Some 2, d_spawnPosition = None, d_tileData = Some ''blob'',
        d_enemies = Some [\<lparr>e_type = ''slime'', roomId = 3, position = (7, 8), level = 1, isBoss = False, rotationY = 0\<rparr>,
          \<lparr>e_type = ''bat'', roomId = 4, position = (3, 4), level = 2, isBoss = False, rotationY = 1\<rparr>],
        d_placedProps = Some [\<lparr>p_type = ''barrel'', p_x = 1, p_y = 0, p_z = 1, p_rotationY = 0, p_scale = 1\<rparr>], d_name = None\<rparr>)
      (get_or (d_enemies \<lparr>d_width = Some 2, d_depth = Some 2, d_spawnPosition = None, d_tileData = Some ''blob'',
        d_enemies = Some [\<lparr>e_type = ''slime'', roomId = 3, position = (7, 8), level = 1, isBoss = False, rotationY = 0\<rparr>,
          \<lparr>e_type = ''bat'', roomId = 4, position = (3, 4), level = 2, isBoss = False, rotationY = 1\<rparr>],
        d_placedProps = Some [\<lparr>p_type = ''barrel'', p_x = 1, p_y = 0, p_z = 1, p_rotationY = 0, p_scale = 1\<rparr>], d_name = None\<rparr>) [])
     = initial_register (1, 1) [] @ [Pos (7, 8), Pos (3, 4)]
   \<and> entry_positions (drop (length (initial_register (1, 1) []))
        (initial_register (1, 1) [\<lparr>e_type = ''slime'', roomId = 3, position = (7, 8), level = 1, isBoss = False, rotationY = 0\<rparr>,
          \<lparr>e_type = ''bat'', roomId = 4, position = (3, 4), level = 2, isBoss = False, rotationY = 1\<rparr>]))
     = [(7, 8), (3, 4)]
   \<and> populate_map (\<lambda>s. Some [1, 0xFF, 4]) \<lparr>shuffle = (\<lambda>xs. xs), bits = (\<lambda>k. k), unit01 = (\<lambda>k. 1 / 2)\<rparr>
        [''in.json'' \<mapsto> \<lparr>d_width = Some 2, d_depth = Some 2, d_spawnPosition = None, d_tileData = Some ''blob'',
        d_enemies = Some [\<lparr>e_type = ''slime'', roomId = 3, position = (7, 8), level = 1, isBoss = False, rotationY = 0\<rparr>,
          \<lparr>e_type = ''bat'', roomId = 4, position = (3, 4), level = 2, isBoss = False, rotationY = 1\<rparr>],
        d_placedProps = Some [\<lparr>p_type = ''barrel'', p_x = 1, p_y = 0, p_z = 1, p_rotationY = 0, p_scale = 1\<rparr>], d_name = None\<rparr>] ''in.json'' ''out.json''
     = (Saved, [''in.json'' \<mapsto> \<lparr>d_width = Some 2, d_depth = Some 2, d_spawnPosition = None, d_tileData = Some ''blob'',
        d_enemies = Some [\<lparr>e_type = ''slime'', roomId = 3, position = (7, 8), level = 1, isBoss = False, rotationY = 0\<rparr>,
          \<lparr>e_type = ''bat'', roomId = 4, position = (3, 4), level = 2, isBoss = False, rotationY = 1\<rparr>],
        d_placedProps = Some [\<lparr>p_type = ''barrel'', p_x = 1, p_y = 0, p_z = 1, p_rotationY = 0, p_scale = 1\<rparr>], d_name = None\<rparr>,
          ''out.json'' \<mapsto> merge (\<lparr>d_width = Some 2, d_depth = Some 2, d_spawnPosition = None, d_tileData = Some ''blob'',
        d_enemies = Some [\<lparr>e_type = ''slime'', roomId = 3, position = (7, 8), level = 1, isBoss = False, rotationY = 0\<rparr>,
          \<lparr>e_type = ''bat'', roomId = 4, position = (3, 4), level = 2, isBoss = False, rotationY = 1\<rparr>],
        d_placedProps = Some [\<lparr>p_type = ''barrel'', p_x = 1, p_y = 0, p_z = 1, p_rotationY = 0, p_scale = 1\<rparr>], d_name = None\<rparr>) [] []])
   \<and> populate_map (\<lambda>s. Some [1, 0xFF, 4]) \<lparr>shuffle = (\<lambda>xs. xs), bits = (\<lambda>k. k), unit01 = (\<lambda>k. 1 / 2)\<rparr>
        [''in.json'' \<mapsto> \<lparr>d_width = Some 2, d_depth = Some 2, d_spawnPosition = None, d_tileData = Some ''blob'',
        d_enemies = Some [\<lparr>e_type = ''slime'', roomId = 3, position = (7, 8), level = 1, isBoss = False, rotationY = 0\<rparr>,
          \<lparr>e_type = ''bat'', roomId = 4, position = (3, 4), level = 2, isBoss = False, rotationY = 1\<rparr>],
        d_placedProps = None, d_name = None\<rparr>] ''in.json'' ''out.json''
     = (Saved, [''in.json'' \<mapsto> \<lparr>d_width = Some 2, d_depth = Some 2, d_spawnPosition = None, d_tileData = Some ''blob'',
        d_enemies = Some [\<lparr>e_type = ''slime'', roomId = 3, position = (7, 8), level = 1, isBoss = False, rotationY = 0\<rparr>,
          \<lparr>e_type = ''bat'', roomId = 4, position = (3, 4), level = 2, isBoss = False, rotationY = 1\<rparr>],
        d_placedProps = None, d_name = None\<rparr>,
          ''out.json'' \<mapsto> merge (\<lparr>d_width = Some 2, d_depth = Some 2, d_spawnPosition = None, d_tileData = Some ''blob'',
        d_enemies = Some [\<lparr>e_type = ''slime'', roomId = 3, position = (7, 8), level = 1, isBoss = False, rotationY = 0\<rparr>,
          \<lparr>e_type = ''bat'', roomId = 4, position = (3, 4), level = 2, isBoss = False, rotationY = 1\<rparr>],
        d_placedProps = None, d_name = None\<rparr>) [] []])
   \<and> generated (run_phases \<lparr>shuffle = (\<lambda>xs. xs), bits = (\<lambda>k. k), unit01 = (\<lambda>k. 1 / 2)\<rparr> (rle_decode [1, 0xFF, 4] 2 2) 2 2 (1, 1)
          [(0, 0), (0, 1), (1, 0), (1, 1)] [Coord 0])
     = generated (run_phases \<lparr>shuffle = (\<lambda>xs. xs), bits = (\<lambda>k. k), unit01 = (\<lambda>k. 1 / 2)\<rparr> (rle_decode [1, 0xFF, 4] 2 2) 2 2 (1, 1)
          [(0, 0), (0, 1), (1, 0), (1, 1)]
          (initial_register (1, 1) [] @ [Pos (7, 8), Pos (3, 4)]))"
proof -
  let ?e1 = "\<lparr>e_type = ''slime'', roomId = 3, position = (7, 8), level = 1, isBoss = False, rotationY = 0\<rparr>"
  let ?e2 = "\<lparr>e_type = ''bat'', roomId = 4, position = (3, 4), level = 2, isBoss = False, rotationY = 1\<rparr>"
  let ?doc = "\<lparr>d_width = Some 2, d_depth = Some 2, d_spawnPosition = None, d_tileData = Some ''blob'',
        d_enemies = Some [\<lparr>e_type = ''slime'', roomId = 3, position = (7, 8), level = 1, isBoss = False, rotationY = 0\<rparr>,
          \<lparr>e_type = ''bat'', roomId = 4, position = (3, 4), level = 2, isBoss = False, rotationY = 1\<rparr>],
        d_placedProps = Some [\<lparr>p_type = ''barrel'', p_x = 1, p_y = 0, p_z = 1, p_rotationY = 0, p_scale = 1\<rparr>], d_name = None\<rparr>"
  let ?g = "\<lparr>shuffle = (\<lambda>xs. xs), bits = (\<lambda>k. k), unit01 = (\<lambda>k. 1 / 2)\<rparr>"
  let ?unwrap = "\<lambda>s :: string. Some [1, 0xFF, 4 :: byte]"
  let ?tiles = "rle_decode [1, 0xFF, 4] 2 2"
  let ?fl = "find_floor_positions ?tiles 2 2"
  let ?reg = "initial_register (spawn_of ?doc) (get_or (d_enemies ?doc) [])"
  have n: "length ?fl = 4"
    by code_simp
  have sp: "spawn_of ?doc = (1, 1)"
    by (simp add: spawn_of_def get_or_def)
  have en: "get_or (d_enemies ?doc) [] = [?e1, ?e2]"
    by (simp add: get_or_def)
  have h1: "get_or (d_tileData ?doc) [] \<noteq> []" by (simp add: get_or_def)
  have h2: "(2 :: int) = get_or (d_width ?doc) 100" "(2 :: int) = get_or (d_depth ?doc) 100"
    by (simp_all add: get_or_def)
  have h3: "decode_tile_data ?unwrap (get_or (d_tileData ?doc) []) 2 2 = Inr ?tiles"
    by (simp add: decode_tile_data_def)
  have idle: "run_phases ?g ?tiles 2 2 (spawn_of ?doc) (shuffle ?g ?fl) ?reg
      = Inr (start_state ?reg)"
    by (rule run_phases_idle) (simp add: n)
  have st: "new_enemies (start_state ?reg) = []" "new_props (start_state ?reg) = []"
    by (simp_all add: start_state_def)
  have d1: "?doc\<lparr>d_placedProps := Some [\<lparr>p_type = ''barrel'', p_x = 1, p_y = 0, p_z = 1, p_rotationY = 0, p_scale = 1\<rparr>]\<rparr> = ?doc"
    by simp
  have d2: "?doc\<lparr>d_placedProps := None\<rparr> = \<lparr>d_width = Some 2, d_depth = Some 2, d_spawnPosition = None, d_tileData = Some ''blob'',
        d_enemies = Some [\<lparr>e_type = ''slime'', roomId = 3, position = (7, 8), level = 1, isBoss = False, rotationY = 0\<rparr>,
          \<lparr>e_type = ''bat'', roomId = 4, position = (3, 4), level = 2, isBoss = False, rotationY = 1\<rparr>],
        d_placedProps = None, d_name = None\<rparr>"
    by simp
  note inst = register_before_phase_a [where doc = ?doc and unwrap = ?unwrap and g = ?g
      and width = 2 and depth = 2 and tiles = ?tiles and fs = Map.empty
      and input_path = "''in.json''" and output_path = "''out.json''"
      and register = ?reg, OF h1 h2 h3 refl]
  note i1 = inst [where doc' = ?doc and props = "Some [\<lparr>p_type = ''barrel'', p_x = 1, p_y = 0, p_z = 1, p_rotationY = 0, p_scale = 1\<rparr>]"
      and spawn_pos = "(1, 1)" and existing = "[?e1, ?e2]", OF d1 [symmetric]]
  note i2 = inst [where doc' = "\<lparr>d_width = Some 2, d_depth = Some 2, d_spawnPosition = None, d_tileData = Some ''blob'',
        d_enemies = Some [\<lparr>e_type = ''slime'', roomId = 3, position = (7, 8), level = 1, isBoss = False, rotationY = 0\<rparr>,
          \<lparr>e_type = ''bat'', roomId = 4, position = (3, 4), level = 2, isBoss = False, rotationY = 1\<rparr>],
        d_placedProps = None, d_name = None\<rparr>" and props = None, OF d2 [symmetric]]
  have a: "?reg = initial_register (1, 1) [] @ [Pos (7, 8), Pos (3, 4)]"
    using i1 unfolding sp en by simp
  have b: "entry_positions (drop (length (initial_register (1, 1) []))
        (initial_register (1, 1) [?e1, ?e2])) = [(7, 8), (3, 4)]"
    using i1 by simp
  have c: "populate_map ?unwrap ?g [''in.json'' \<mapsto> ?doc] ''in.json'' ''out.json''
     = (Saved, [''in.json'' \<mapsto> ?doc, ''out.json'' \<mapsto> merge ?doc [] []])"
    using i1 unfolding idle sum.case st by blast
  have d: "populate_map ?unwrap ?g [''in.json'' \<mapsto> \<lparr>d_width = Some 2, d_depth = Some 2, d_spawnPosition = None, d_tileData = Some ''blob'',
        d_enemies = Some [\<lparr>e_type = ''slime'', roomId = 3, position = (7, 8), level = 1, isBoss = False, rotationY = 0\<rparr>,
          \<lparr>e_type = ''bat'', roomId = 4, position = (3, 4), level = 2, isBoss = False, rotationY = 1\<rparr>],
        d_placedProps = None, d_name = None\<rparr>] ''in.json'' ''out.json''
     = (Saved, [''in.json'' \<mapsto> \<lparr>d_width = Some 2, d_depth = Some 2, d_spawnPosition = None, d_tileData = Some ''blob'',
        d_enemies = Some [\<lparr>e_type = ''slime'', roomId = 3, position = (7, 8), level = 1, isBoss = False, rotationY = 0\<rparr>,
          \<lparr>e_type = ''bat'', roomId = 4, position = (3, 4), level = 2, isBoss = False, rotationY = 1\<rparr>],
        d_placedProps = None, d_name = None\<rparr>,
          ''out.json'' \<mapsto> merge (\<lparr>d_width = Some 2, d_depth = Some 2, d_spawnPosition = None, d_tileData = Some ''blob'',
        d_enemies = Some [\<lparr>e_type = ''slime'', roomId = 3, position = (7, 8), level = 1, isBoss = False, rotationY = 0\<rparr>,
          \<lparr>e_type = ''bat'', roomId = 4, position = (3, 4), level = 2, isBoss = False, rotationY = 1\<rparr>],
        d_placedProps = None, d_name = None\<rparr>) [] []])"
    using i2 unfolding idle sum.case st by blast
  have sc: "same_clearance [Coord 0] ?reg"
    by (simp add: same_clearance_def initial_register_def)
  from i1 sc have "generated (run_phases ?g ?tiles 2 2 (1, 1) [(0, 0), (0, 1), (1, 0), (1, 1)] [Coord 0])
     = generated (run_phases ?g ?tiles 2 2 (1, 1) [(0, 0), (0, 1), (1, 0), (1, 1)] ?reg)"
    by blast
  then have e: "generated (run_phases ?g ?tiles 2 2 (1, 1)
          [(0, 0), (0, 1), (1, 0), (1, 1)] [Coord 0])
     = generated (run_phases ?g ?tiles 2 2 (1, 1)
          [(0, 0), (0, 1), (1, 0), (1, 1)]
          (initial_register (1, 1) [] @ [Pos (7, 8), Pos (3, 4)]))"
    unfolding a .
  from a b c d e show ?thesis
    by (intro conjI)
qed

text \<open>
  The claim as the specification words it fails: for a document with spawn point
  \<open>(5, 5)\<close>, no enemy and one prop at \<open>(1, 1)\<close>, the register is not the spawn
  position followed by the prop's position; it holds no position at all.
\<close>

theorem register_counterexample:
  "initial_register
     (spawn_of \<lparr>d_width = Some 10, d_depth = Some 10, d_spawnPosition = Some (Some 5, Some 5),
        d_tileData = Some ''blob'', d_enemies = None,
        d_placedProps = Some [\<lparr>p_type = ''barrel'', p_x = 1, p_y = 0, p_z = 1,
                                p_rotationY = 0, p_scale = 1\<rparr>],
        d_name = None\<rparr>)
     (get_or (d_enemies \<lparr>d_width = Some 10, d_depth = Some 10,
        d_spawnPosition = Some (Some 5, Some 5),
        d_tileData = Some ''blob'', d_enemies = None,
        d_placedProps = Some [\<lparr>p_type = ''barrel'', p_x = 1, p_y = 0, p_z = 1,
                                p_rotationY = 0, p_scale = 1\<rparr>],
        d_name = None\<rparr>) [])
   \<noteq> [Pos (5, 5), Pos (1, 1)]
   \<and> entry_positions (initial_register
     (spawn_of \<lparr>d_width = Some 10, d_depth = Some 10, d_spawnPosition = Some (Some 5, Some 5),
        d_tileData = Some ''blob'', d_enemies = None,
        d_placedProps = Some [\<lparr>p_type = ''barrel'', p_x = 1, p_y = 0, p_z = 1,
                                p_rotationY = 0, p_scale = 1\<rparr>],
        d_name = None\<rparr>)
     (get_or (d_enemies \<lparr>d_width = Some 10, d_depth = Some 10,
        d_spawnPosition = Some (Some 5, Some 5),
        d_tileData = Some ''blob'', d_enemies = None,
        d_placedProps = Some [\<lparr>p_type = ''barrel'', p_x = 1, p_y = 0, p_z = 1,
                                p_rotationY = 0, p_scale = 1\<rparr>],
        d_name = None\<rparr>) [])) = []"
  by (simp add: initial_register_def spawn_of_def get_or_def)

text \<open>
  Claim C9. The merge is purely additive: the written document's enemies are the existing
  records followed by the generated monsters, its props the existing records followed by
  the generated props, so the lengths add up and every existing entry keeps its place and
  value; the name is the old name (\<open>Map\<close> when absent) with \<open> (Populated)\<close>
  appended; the other fields are untouched. A run that saves writes exactly this merge
  of the input document with the entities the phases generated.
\<close>

theorem merge_additive:
  "get_or (d_enemies (merge map_data gen_enemies gen_props)) []
     = get_or (d_enemies map_data) [] @ gen_enemies
   \<and> get_or (d_placedProps (merge map_data gen_enemies gen_props)) []
     = get_or (d_placedProps map_data) [] @ gen_props
   \<and> length (get_or (d_enemies (merge map_data gen_enemies gen_props)) [])
     = length (get_or (d_enemies map_data) []) + length gen_enemies
   \<and> length (get_or (d_placedProps (merge map_data gen_enemies gen_props)) [])
     = length (get_or (d_placedProps map_data) []) + length gen_props
   \<and> take (length (get_or (d_enemies map_data) []))
        (get_or (d_enemies (merge map_data gen_enemies gen_props)) [])
     = get_or (d_enemies map_data) []
   \<and> take (length (get_or (d_placedProps map_data) []))
        (get_or (d_placedProps (merge map_data gen_enemies gen_props)) [])
     = get_or (d_placedProps map_data) []
   \<and> d_name (merge map_data gen_enemies gen_props)
     = Some (get_or (d_name map_data) ''Map'' @ '' (Populated)'')
   \<and> d_width (merge map_data gen_enemies gen_props) = d_width map_data
   \<and> d_depth (merge map_data gen_enemies gen_props) = d_depth map_data
   \<and> d_spawnPosition (merge map_data gen_enemies gen_props) = d_spawnPosition map_data
   \<and> d_tileData (merge map_data gen_enemies gen_props) = d_tileData map_data
   \<and> (populate_map unwrap g fs input_path output_path = (Saved, fs') \<longrightarrow>
        (\<exists>doc tiles st. fs input_path = Some doc
           \<and> run_phases g tiles (get_or (d_width doc) 100) (get_or (d_depth doc) 100)
                (spawn_of doc)
                (shuffle g (find_floor_positions tiles
                   (get_or (d_width doc) 100) (get_or (d_depth doc) 100)))
                (initial_register (spawn_of doc) (get_or (d_enemies doc) [])) = Inr st
           \<and> fs' = fs(output_path \<mapsto> merge doc (new_enemies st) (new_props st))))"
proof -
  have "populate_map unwrap g fs input_path output_path = (Saved, fs') \<longrightarrow>
        (\<exists>doc tiles st. fs input_path = Some doc
           \<and> run_phases g tiles (get_or (d_width doc) 100) (get_or (d_depth doc) 100)
                (spawn_of doc)
                (shuffle g (find_floor_positions tiles
                   (get_or (d_width doc) 100) (get_or (d_depth doc) 100)))
                (initial_register (spawn_of doc) (get_or (d_enemies doc) [])) = Inr st
           \<and> fs' = fs(output_path \<mapsto> merge doc (new_enemies st) (new_props st)))"
    by (auto simp: populate_map_def Let_def split: option.splits sum.splits if_splits)
  then show ?thesis
    by (simp add: merge_def get_or_def)
qed

theorem merge_additive_witness:
  "populate_map (\<lambda>s. Some [1, 0xFF, 4])
     \<lparr>shuffle = (\<lambda>xs. xs), bits = (\<lambda>k. k), unit01 = (\<lambda>k. 1 / 2)\<rparr>
     [''in.json'' \<mapsto> \<lparr>d_width = Some 2, d_depth = Some 2, d_spawnPosition = None,
        d_tileData = Some ''blob'',
        d_enemies = Some [\<lparr>e_type = ''slime'', roomId = 3, position = (1, 1), level = 1,
                            isBoss = False, rotationY = 0\<rparr>],
        d_placedProps = None, d_name = Some ''Cellar''\<rparr>]
     ''in.json'' ''out.json''
   = (Saved,
      [''in.json'' \<mapsto> \<lparr>d_width = Some 2, d_depth = Some 2, d_spawnPosition = None,
        d_tileData = Some ''blob'',
        d_enemies = Some [\<lparr>e_type = ''slime'', roomId = 3, position = (1, 1), level = 1,
                            isBoss = False, rotationY = 0\<rparr>],
        d_placedProps = None, d_name = Some ''Cellar''\<rparr>,
       ''out.json'' \<mapsto> \<lparr>d_width = Some 2, d_depth = Some 2, d_spawnPosition = None,
        d_tileData = Some ''blob'',
        d_enemies = Some [\<lparr>e_type = ''slime'', roomId = 3, position = (1, 1), level = 1,
                            isBoss = False, rotationY = 0\<rparr>],
        d_placedProps = Some [], d_name = Some ''Cellar (Populated)''\<rparr>])
   \<and> get_or (d_enemies (merge
        \<lparr>d_width = Some 2, d_depth = Some 2, d_spawnPosition = None,
          d_tileData = Some ''blob'',
          d_enemies = Some [\<lparr>e_type = ''slime'', roomId = 3, position = (1, 1), level = 1,
                              isBoss = False, rotationY = 0\<rparr>],
          d_placedProps = None, d_name = Some ''Cellar''\<rparr>
        [\<lparr>e_type = ''bat'', roomId = - 1, position = (0, 1), level = 2, isBoss = False,
           rotationY = 1\<rparr>] [])) []
     = [\<lparr>e_type = ''slime'', roomId = 3, position = (1, 1), level = 1, isBoss = False,
          rotationY = 0\<rparr>,
        \<lparr>e_type = ''bat'', roomId = - 1, position = (0, 1), level = 2, isBoss = False,
          rotationY = 1\<rparr>]"
proof -
  let ?e = "\<lparr>e_type = ''slime'', roomId = 3, position = (1, 1), level = 1,
                            isBoss = False, rotationY = 0\<rparr>"
  let ?doc = "\<lparr>d_width = Some 2, d_depth = Some 2, d_spawnPosition = None,
        d_tileData = Some ''blob'', d_enemies = Some [?e],
        d_placedProps = None, d_name = Some ''Cellar''\<rparr>"
  let ?g = "\<lparr>shuffle = (\<lambda>xs. xs), bits = (\<lambda>k. k), unit01 = (\<lambda>k. 1 / 2)\<rparr>"
  let ?fs = "[''in.json'' \<mapsto> ?doc]"
  let ?unwrap = "\<lambda>s :: string. Some [1, 0xFF, 4 :: byte]"
  let ?tiles = "rle_decode [1, 0xFF, 4] 2 2"
  let ?fl = "find_floor_positions ?tiles 2 2"
  let ?m = "\<lparr>e_type = ''bat'', roomId = - 1, position = (0, 1), level = 2, isBoss = False,
           rotationY = 1\<rparr>"
  have n: "length ?fl = 4"
    by code_simp
  have dec: "decode_tile_data ?unwrap (get_or (d_tileData ?doc) [])
           (get_or (d_width ?doc) 100) (get_or (d_depth ?doc) 100) = Inr ?tiles"
    by (simp add: decode_tile_data_def get_or_def)
  have wd: "get_or (d_width ?doc) 100 = 2" "get_or (d_depth ?doc) 100 = 2"
    by (simp_all add: get_or_def)
  have perm: "permutation_of (shuffle ?g (find_floor_positions ?tiles
           (get_or (d_width ?doc) 100) (get_or (d_depth ?doc) 100)))
         (find_floor_positions ?tiles
           (get_or (d_width ?doc) 100) (get_or (d_depth ?doc) 100))"
    by (simp add: permutation_of_def)
  have run: "populate_map ?unwrap ?g ?fs ''in.json'' ''out.json''
      = (Saved, ?fs(''out.json'' \<mapsto> merge ?doc [] []))"
    using populate_map_decoded [where fs = ?fs and input_path = "''in.json''"
        and map_data = ?doc and unwrap = ?unwrap and g = ?g and tiles = ?tiles
        and output_path = "''out.json''", OF _ _ dec perm] n
    unfolding wd by (simp add: get_or_def)
  from merge_additive [of ?doc "[]" "[]" ?unwrap ?g ?fs "''in.json''" "''out.json''"
      "?fs(''out.json'' \<mapsto> merge ?doc [] [])"]
  have out: "get_or (d_enemies (merge ?doc [] [])) [] = [?e]"
    and "get_or (d_placedProps (merge ?doc [] [])) [] = []"
    and "d_name (merge ?doc [] []) = Some ''Cellar (Populated)''"
    by (simp_all add: get_or_def)
  from merge_additive [of ?doc "[?m]" "[]"]
  have two: "get_or (d_enemies (merge ?doc [?m] [])) [] = [?e, ?m]"
    by (simp add: get_or_def)
  have "merge ?doc [] [] = ?doc\<lparr>d_enemies := Some [?e], d_placedProps := Some [],
      d_name := Some ''Cellar (Populated)''\<rparr>"
    by (simp add: merge_def get_or_def)
  with run two show ?thesis by simp
qed

text \<open>
  Claim C10. For an input document whose \<open>tileData\<close> is absent or empty the run returns
  before decoding and placement and leaves the file system as it was, so the destination
  is not written. A run that returns after saving has written the merged document to
  \<open>output_path\<close>; every other outcome writes nothing.
\<close>

theorem no_tile_data_aborts:
  assumes "fs input_path = Some map_data"
  shows "(d_tileData map_data = None \<or> d_tileData map_data = Some [] \<longrightarrow>
           populate_map unwrap g fs input_path output_path = (NoTileData, fs))
       \<and> (fst (populate_map unwrap g fs input_path output_path) = Saved \<longrightarrow>
            (\<exists>gen_enemies gen_props.
               snd (populate_map unwrap g fs input_path output_path)
                 = fs(output_path \<mapsto> merge map_data gen_enemies gen_props)))
       \<and> (fst (populate_map unwrap g fs input_path output_path) \<noteq> Saved \<longrightarrow>
            snd (populate_map unwrap g fs input_path output_path) = fs)"
proof (intro conjI impI)
  assume "d_tileData map_data = None \<or> d_tileData map_data = Some []"
  with assms show "populate_map unwrap g fs input_path output_path = (NoTileData, fs)"
    by (auto simp: populate_map_def Let_def get_or_def)
next
  assume "fst (populate_map unwrap g fs input_path output_path) = Saved"
  with assms show "\<exists>gen_enemies gen_props.
               snd (populate_map unwrap g fs input_path output_path)
                 = fs(output_path \<mapsto> merge map_data gen_enemies gen_props)"
    by (auto simp: populate_map_def Let_def split: sum.splits if_splits)
next
  assume "fst (populate_map unwrap g fs input_path output_path) \<noteq> Saved"
  with assms show "snd (populate_map unwrap g fs input_path output_path) = fs"
    by (auto simp: populate_map_def Let_def split: sum.splits if_splits)
qed

theorem no_tile_data_aborts_witness:
  "populate_map (\<lambda>s. None)
     \<lparr>shuffle = (\<lambda>xs. xs), bits = (\<lambda>k. k), unit01 = (\<lambda>k. 1 / 2)\<rparr>
     [''in.json'' \<mapsto> \<lparr>d_width = Some 10, d_depth = Some 10, d_spawnPosition = None,
        d_tileData = None, d_enemies = None, d_placedProps = None, d_name = None\<rparr>]
     ''in.json'' ''out.json''
   = (NoTileData,
      [''in.json'' \<mapsto> \<lparr>d_width = Some 10, d_depth = Some 10, d_spawnPosition = None,
        d_tileData = None, d_enemies = None, d_placedProps = None, d_name = None\<rparr>])
   \<and> populate_map (\<lambda>s. None)
     \<lparr>shuffle = (\<lambda>xs. xs), bits = (\<lambda>k. k), unit01 = (\<lambda>k. 1 / 2)\<rparr>
     [''in.json'' \<mapsto> \<lparr>d_width = Some 10, d_depth = Some 10, d_spawnPosition = None,
        d_tileData = Some [], d_enemies = None, d_placedProps = None, d_name = None\<rparr>]
     ''in.json'' ''out.json''
   = (NoTileData,
      [''in.json'' \<mapsto> \<lparr>d_width = Some 10, d_depth = Some 10, d_spawnPosition = None,
        d_tileData = Some [], d_enemies = None, d_placedProps = None, d_name = None\<rparr>])"
proof -
  let ?g = "\<lparr>shuffle = (\<lambda>xs. xs), bits = (\<lambda>k. k), unit01 = (\<lambda>k. 1 / 2)\<rparr>"
  let ?d1 = "\<lparr>d_width = Some 10, d_depth = Some 10, d_spawnPosition = None,
        d_tileData = None, d_enemies = None, d_placedProps = None, d_name = None\<rparr>"
  let ?d2 = "\<lparr>d_width = Some 10, d_depth = Some 10, d_spawnPosition = None,
        d_tileData = Some [], d_enemies = None, d_placedProps = None, d_name = None\<rparr>"
  have h1: "[''in.json'' \<mapsto> ?d1] ''in.json'' = Some ?d1"
    and h2: "[''in.json'' \<mapsto> ?d2] ''in.json'' = Some ?d2"
    by simp_all
  from no_tile_data_aborts [where fs = "[''in.json'' \<mapsto> ?d1]" and input_path = "''in.json''"
      and map_data = ?d1 and unwrap = "\<lambda>s. None" and g = ?g and output_path = "''out.json''", OF h1]
    no_tile_data_aborts [where fs = "[''in.json'' \<mapsto> ?d2]" and input_path = "''in.json''"
      and map_data = ?d2 and unwrap = "\<lambda>s. None" and g = ?g and output_path = "''out.json''", OF h2]
  show ?thesis by simp
qed

end
